theory Spec2Isabelle
  imports Complex_Main "HOL-Library.Multiset" "HOL-Library.Char_ord" "HOL-Library.List_Lexorder"
begin

section \<open>Data model of the analysis stage (Etape2/selection.py)\<close>

text \<open>
  A cell of a data frame column whose Python type the code inspects at run time
  (\<^verbatim>\<open>pd.isna\<close>, \<^verbatim>\<open>isinstance(x, str)\<close>, \<^verbatim>\<open>isinstance(x, (int, float))\<close>):
  a null (\<^verbatim>\<open>None\<close> or NaN), a number, or a string. Floating point numbers are
  modelled by the reals they denote, with NaN as a value of its own wherever the code
  can meet one; rounding is not modelled, and neither are infinities, which the prices
  of the sources (a \<^verbatim>\<open>DECIMAL(10, 2)\<close> column and a text column of 50 characters)
  are too small to produce. Strings are ASCII text, and the character classes below are
  the ASCII ones.
\<close>

datatype cell = Null | Num real | Str string

text \<open>
  One row of \<^verbatim>\<open>combined_df\<close> with the eleven \<^verbatim>\<open>expected_cols\<close>. Text columns read
  from VARCHAR columns are \<open>string option\<close> (\<open>None\<close> is SQL NULL). The type parameter is
  the type of the price column: a \<^typ>\<open>cell\<close> as fetched, a \<^typ>\<open>real option\<close>
  (\<open>None\<close> is NaN) once \<^verbatim>\<open>clean_and_convert_price\<close> has been applied.
\<close>

record 'p product =
  product_url :: "string option"
  title :: "string option"
  vendor :: "string option"
  price :: 'p
  availability :: cell
  description :: cell
  product_category :: "string option"
  source_store_name :: "string option"
  source_platform :: "string option"
  product_tags :: "string option"
  sku :: "string option"

text \<open>Rows after \<^verbatim>\<open>preprocess_combined_data\<close>: two derived columns are added.\<close>

record prepped = "real option product" +
  is_available_numeric :: int
  description_text :: string

text \<open>Rows after \<^verbatim>\<open>calculate_attractiveness_score\<close>: three score columns are added.\<close>

record scored = prepped +
  availability_score :: int
  price_score :: real
  final_score :: real

section \<open>Source readers and the merge\<close>

text \<open>
  The columns that the two \<^verbatim>\<open>SELECT\<close> statements read (lines 57 and 71), under the
  names the queries give them.
\<close>

record shopify_record =
  shop_product_url :: "string option"
  shop_title :: "string option"
  shop_vendor :: "string option"
  shop_price :: cell
  shop_availability :: cell
  shop_description :: cell
  shop_product_category :: "string option"
  shop_source_store_name :: "string option"

record woocommerce_record =
  woo_product_url :: "string option"
  woo_title :: "string option"
  woo_price :: cell
  woo_product_tags :: "string option"
  woo_sku :: "string option"
  woo_product_category :: "string option"

text \<open>
  A fetched Shopify row in the unified schema: \<^verbatim>\<open>source_platform\<close> is set, and
  \<^verbatim>\<open>product_tags\<close> and \<^verbatim>\<open>sku\<close>, which the source does not have, are \<^verbatim>\<open>None\<close>.
\<close>

definition shopify_row :: "shopify_record \<Rightarrow> cell product" where
  "shopify_row s =
     \<lparr> product_url = shop_product_url s,
       title = shop_title s,
       vendor = shop_vendor s,
       price = shop_price s,
       availability = shop_availability s,
       description = shop_description s,
       product_category = shop_product_category s,
       source_store_name = shop_source_store_name s,
       source_platform = Some ''Shopify'',
       product_tags = None,
       sku = None \<rparr>"

text \<open>
  A fetched WooCommerce row: platform, store, vendor and availability are constants, and
  \<^verbatim>\<open>description\<close>, which the source does not have, is \<^verbatim>\<open>None\<close>.
\<close>

definition woocommerce_row :: "woocommerce_record \<Rightarrow> cell product" where
  "woocommerce_row w =
     \<lparr> product_url = woo_product_url w,
       title = woo_title w,
       vendor = Some ''Barefoot Buttons'',
       price = woo_price w,
       availability = Str ''Available'',
       description = Null,
       product_category = woo_product_category w,
       source_store_name = Some ''Barefoot Buttons'',
       source_platform = Some ''WooCommerce'',
       product_tags = woo_product_tags w,
       sku = woo_sku w \<rparr>"

text \<open>
  \<^verbatim>\<open>fetch_shopify_data\<close> and \<^verbatim>\<open>fetch_woocommerce_data\<close> (lines 53-81). The argument is
  the source table, or \<open>None\<close> when there is no connection or the query fails; the frame
  is empty then. The query keeps the rows whose price and title are not NULL.
\<close>

definition fetch_shopify_data :: "shopify_record list option \<Rightarrow> cell product list" where
  "fetch_shopify_data conn =
     (case conn of
        None \<Rightarrow> []
      | Some products \<Rightarrow>
          map shopify_row (filter (\<lambda>s. shop_price s \<noteq> Null \<and> shop_title s \<noteq> None) products))"

definition fetch_woocommerce_data :: "woocommerce_record list option \<Rightarrow> cell product list" where
  "fetch_woocommerce_data conn =
     (case conn of
        None \<Rightarrow> []
      | Some barefoot_products \<Rightarrow>
          map woocommerce_row
            (filter (\<lambda>w. woo_price w \<noteq> Null \<and> woo_title w \<noteq> None) barefoot_products))"

text \<open>\<^verbatim>\<open>dropna(how='all')\<close>: a row is dropped when every one of its columns is null.\<close>

definition all_null :: "cell product \<Rightarrow> bool" where
  "all_null r =
     (product_url r = None \<and> title r = None \<and> vendor r = None \<and> price r = Null
      \<and> availability r = Null \<and> description r = Null \<and> product_category r = None
      \<and> source_store_name r = None \<and> source_platform r = None \<and> product_tags r = None
      \<and> sku r = None)"

text \<open>
  \<^verbatim>\<open>drop_duplicates(subset=[col], keep='first')\<close>: a row is kept unless an earlier
  row has the same value in the column. The second argument holds the values seen so
  far. Null values compare equal to each other, as pandas has it.
\<close>

fun drop_duplicates :: "('a \<Rightarrow> 'k) \<Rightarrow> 'k list \<Rightarrow> 'a list \<Rightarrow> 'a list" where
  "drop_duplicates col seen [] = []"
| "drop_duplicates col seen (r # rs) =
     (if col r \<in> set seen then drop_duplicates col seen rs
      else r # drop_duplicates col (col r # seen) rs)"

text \<open>
  The merge of the main block (lines 375-394): the Shopify frame is read and appended
  first, then the WooCommerce frame; an empty frame is not appended.
\<close>

definition combine :: "cell product list \<Rightarrow> cell product list \<Rightarrow> cell product list" where
  "combine df_shopify_raw df_woocommerce_raw =
     (let df_s_list = (if df_shopify_raw \<noteq> [] then [df_shopify_raw] else [])
                      @ (if df_woocommerce_raw \<noteq> [] then [df_woocommerce_raw] else []) in
      if df_s_list = [] then []
      else drop_duplicates product_url [] (filter (\<lambda>r. \<not> all_null r) (concat df_s_list)))"

section \<open>Price cleaning\<close>

definition is_digit :: "char \<Rightarrow> bool" where
  "is_digit c = (48 \<le> (of_char c :: nat) \<and> (of_char c :: nat) \<le> 57)"

definition digit_val :: "char \<Rightarrow> nat" where
  "digit_val c = (of_char c :: nat) - 48"

definition dec_val :: "string \<Rightarrow> nat" where
  "dec_val ds = foldl (\<lambda>a c. 10 * a + digit_val c) 0 ds"

text \<open>
  \<^verbatim>\<open>re.sub(r'[^\d\.]', '', s)\<close>: every character that is neither a digit nor the
  decimal point is removed; in particular a minus sign is.
\<close>

definition strip_non_numeric :: "string \<Rightarrow> string" where
  "strip_non_numeric s = filter (\<lambda>c. is_digit c \<or> c = CHR ''.'') s"

text \<open>
  Python's \<^verbatim>\<open>float\<close> on the strings that can reach it here, which consist of digits
  and points only: digits, optionally one point, optionally more digits, with at least
  one digit in all. Anything else (a lone point, two points) raises \<^verbatim>\<open>ValueError\<close>,
  which is \<open>None\<close> here.
\<close>

definition py_float :: "string \<Rightarrow> real option" where
  "py_float s =
     (let ip = takeWhile is_digit s; rest = dropWhile is_digit s in
      case rest of
        [] \<Rightarrow> if ip = [] then None else Some (real (dec_val ip))
      | c # fp \<Rightarrow>
          if c = CHR ''.'' \<and> list_all is_digit fp \<and> (ip \<noteq> [] \<or> fp \<noteq> [])
          then Some (real (dec_val ip) + real (dec_val fp) / 10 ^ length fp)
          else None)"

text \<open>
  \<^verbatim>\<open>clean_and_convert_price\<close> (lines 92-98). \<open>None\<close> is \<^verbatim>\<open>np.nan\<close>: a null input,
  an empty cleaned string, or a \<^verbatim>\<open>ValueError\<close> of \<^verbatim>\<open>float\<close>.
\<close>

fun clean_and_convert_price :: "cell \<Rightarrow> real option" where
  "clean_and_convert_price Null = None"
| "clean_and_convert_price (Num x) = Some x"
| "clean_and_convert_price (Str s) =
     (let cleaned_price = strip_non_numeric s in
      if cleaned_price = [] then None else py_float cleaned_price)"

section \<open>Preprocessing\<close>

definition lower_char :: "char \<Rightarrow> char" where
  "lower_char c =
     (case map_of (zip ''ABCDEFGHIJKLMNOPQRSTUVWXYZ'' ''abcdefghijklmnopqrstuvwxyz'') c of
        Some d \<Rightarrow> d
      | None \<Rightarrow> c)"

definition lower :: "string \<Rightarrow> string" where
  "lower s = map lower_char s"

text \<open>The lambda of line 102.\<close>

fun availability_flag :: "cell \<Rightarrow> int" where
  "availability_flag (Str x) = (if lower x = ''available'' then 1 else 0)"
| "availability_flag Null = 0"
| "availability_flag (Num v) = 0"

text \<open>
  \<^verbatim>\<open>re.sub('<.*?>', '', s)\<close>: a \<^verbatim>\<open><\<close> together with the shortest run of characters
  other than a newline that ends in \<^verbatim>\<open>>\<close> is removed; a \<^verbatim>\<open><\<close> with no such
  \<^verbatim>\<open>>\<close> stays.
\<close>

definition tag_body :: "char \<Rightarrow> bool" where
  "tag_body d = (d \<noteq> CHR ''>'' \<and> d \<noteq> CHR 0x0A)"

function strip_tags :: "string \<Rightarrow> string" where
  "strip_tags [] = []"
| "strip_tags (c # cs) =
     (if c = CHR ''<'' \<and> dropWhile tag_body cs \<noteq> [] \<and> hd (dropWhile tag_body cs) = CHR ''>''
      then strip_tags (tl (dropWhile tag_body cs))
      else c # strip_tags cs)"
  by pat_completeness auto
termination
proof (relation "measure length")
  show "wf (measure length)" by simp
next
  fix c :: char and cs :: string
  assume "c = CHR ''<'' \<and> dropWhile tag_body cs \<noteq> [] \<and> hd (dropWhile tag_body cs) = CHR ''>''"
  have "length (tl (dropWhile tag_body cs)) \<le> length (dropWhile tag_body cs)" by simp
  also have "\<dots> \<le> length cs" by (rule length_dropWhile_le)
  finally show "(tl (dropWhile tag_body cs), c # cs) \<in> measure length" by simp
next
  fix c :: char and cs :: string
  show "(cs, c # cs) \<in> measure length" by simp
qed

definition is_space :: "char \<Rightarrow> bool" where
  "is_space c = ((9 \<le> (of_char c :: nat) \<and> (of_char c :: nat) \<le> 13)
                 \<or> (28 \<le> (of_char c :: nat) \<and> (of_char c :: nat) \<le> 32))"

definition py_strip :: "string \<Rightarrow> string" where
  "py_strip s = rev (dropWhile is_space (rev (dropWhile is_space s)))"

text \<open>\<^verbatim>\<open>clean_html\<close> (lines 84-86).\<close>

fun clean_html :: "cell \<Rightarrow> string" where
  "clean_html (Str raw_html) = py_strip (strip_tags raw_html)"
| "clean_html Null = []"
| "clean_html (Num v) = []"

text \<open>\<^verbatim>\<open>fillna('N/A')\<close> on one value of a text column.\<close>

fun fillna_NA :: "string option \<Rightarrow> string option" where
  "fillna_NA None = Some ''N/A''"
| "fillna_NA (Some s) = Some s"

text \<open>
  What \<^verbatim>\<open>preprocess_combined_data\<close> makes of one row that it keeps: the price column
  is overwritten by the converted price, \<^verbatim>\<open>is_available_numeric\<close> and
  \<^verbatim>\<open>description_text\<close> are added, and the six columns of the loop of line 108 are
  filled. The columns \<^verbatim>\<open>product_url\<close>, \<^verbatim>\<open>availability\<close>, \<^verbatim>\<open>description\<close> and
  \<^verbatim>\<open>source_platform\<close> are not touched.
\<close>

definition preprocess_row :: "cell product \<Rightarrow> prepped" where
  "preprocess_row r =
     \<lparr> product_url = product_url r,
       title = fillna_NA (title r),
       vendor = fillna_NA (vendor r),
       price = clean_and_convert_price (price r),
       availability = availability r,
       description = description r,
       product_category = fillna_NA (product_category r),
       source_store_name = fillna_NA (source_store_name r),
       source_platform = source_platform r,
       product_tags = fillna_NA (product_tags r),
       sku = fillna_NA (sku r),
       is_available_numeric = availability_flag (availability r),
       description_text = clean_html (description r) \<rparr>"

text \<open>
  \<^verbatim>\<open>preprocess_combined_data\<close> (lines 88-115). \<^verbatim>\<open>dropna(subset=['price'])\<close> removes
  the rows whose converted price is NaN.
\<close>

definition preprocess_combined_data :: "cell product list \<Rightarrow> prepped list" where
  "preprocess_combined_data df =
     (if df = [] then []
      else map preprocess_row
             (filter (\<lambda>r. clean_and_convert_price (price r) \<noteq> None) df))"

section \<open>Scoring\<close>

text \<open>
  A float column is a list of \<^typ>\<open>real option\<close>, \<open>None\<close> being NaN. The pandas
  reductions used by the scorer skip NaN: \<^verbatim>\<open>nunique\<close> counts the distinct non-null
  values, \<^verbatim>\<open>min\<close> and \<^verbatim>\<open>max\<close> range over the non-null values and are NaN when
  there is none.
\<close>

definition notnull_values :: "real option list \<Rightarrow> real list" where
  "notnull_values col = concat (map (\<lambda>v. case v of None \<Rightarrow> [] | Some x \<Rightarrow> [x]) col)"

definition nunique :: "real option list \<Rightarrow> nat" where
  "nunique col = length (remdups (notnull_values col))"

definition isnull_all :: "real option list \<Rightarrow> bool" where
  "isnull_all col = list_all (\<lambda>v. v = None) col"

definition series_min :: "real option list \<Rightarrow> real option" where
  "series_min col = (case notnull_values col of [] \<Rightarrow> None | x # xs \<Rightarrow> Some (fold min xs x))"

definition series_max :: "real option list \<Rightarrow> real option" where
  "series_max col = (case notnull_values col of [] \<Rightarrow> None | x # xs \<Rightarrow> Some (fold max xs x))"

text \<open>Float arithmetic with NaN: a NaN operand gives NaN, and NaN equals nothing.\<close>

fun nan_sub :: "real option \<Rightarrow> real option \<Rightarrow> real option" where
  "nan_sub (Some a) (Some b) = Some (a - b)"
| "nan_sub a b = None"

fun nan_div :: "real option \<Rightarrow> real option \<Rightarrow> real option" where
  "nan_div (Some a) (Some b) = Some (a / b)"
| "nan_div a b = None"

fun nan_eq :: "real option \<Rightarrow> real option \<Rightarrow> bool" where
  "nan_eq (Some a) (Some b) = (a = b)"
| "nan_eq a b = False"

text \<open>
  Lines 125-131: the column \<^verbatim>\<open>price_score_col\<close> before \<^verbatim>\<open>fillna(0)\<close>. It starts as
  0.0 everywhere; an assignment to \<^verbatim>\<open>.loc[:]\<close> overwrites every row.
\<close>

definition price_score_col :: "real option list \<Rightarrow> real option list" where
  "price_score_col prices =
     (if nunique prices > 1 \<and> \<not> isnull_all prices then
        (let price_min = series_min prices; price_max = series_max prices in
         if nan_eq price_max price_min then map (\<lambda>p. Some (1 / 2)) prices
         else map (\<lambda>p. nan_div (nan_sub price_max p) (nan_sub price_max price_min)) prices)
      else if length prices > 0 \<and> \<not> isnull_all prices then map (\<lambda>p. Some (1 / 2)) prices
      else map (\<lambda>p. Some 0) prices)"

fun fillna0 :: "real option \<Rightarrow> real" where
  "fillna0 None = 0"
| "fillna0 (Some x) = x"

definition score_row :: "real \<Rightarrow> real \<Rightarrow> prepped \<Rightarrow> real option \<Rightarrow> scored" where
  "score_row w_availability w_price r ps =
     prepped.extend r
       (scored.fields (is_available_numeric r) (fillna0 ps)
          (real_of_int (is_available_numeric r) * w_availability + fillna0 ps * w_price))"

text \<open>
  \<^verbatim>\<open>calculate_attractiveness_score\<close> (lines 117-136). The columns it asks for are
  fields of \<^typ>\<open>prepped\<close>, so only the empty frame takes the early return.
\<close>

definition calculate_attractiveness_score :: "prepped list \<Rightarrow> real \<Rightarrow> real \<Rightarrow> scored list" where
  "calculate_attractiveness_score df w_availability w_price =
     (if df = [] then []
      else map2 (score_row w_availability w_price) df (price_score_col (map price df)))"

definition WEIGHT_AVAILABILITY :: real where
  "WEIGHT_AVAILABILITY = 6 / 10"

definition WEIGHT_PRICE :: real where
  "WEIGHT_PRICE = 4 / 10"


section \<open>Rank derivers\<close>

text \<open>
  \<^verbatim>\<open>sort_values(by='final_score', ascending=False)\<close> is a pandas routine, called with
  its default \<^verbatim>\<open>kind='quicksort'\<close>. It is a parameter of the model. What the library
  promises of it is that the result is a rearrangement of the frame in descending order
  of the column; the default algorithm is not a stable one, so the order of rows with
  equal scores is not fixed.
\<close>

definition descending :: "scored list \<Rightarrow> bool" where
  "descending df = sorted_wrt (\<lambda>a b. final_score b \<le> final_score a) df"

definition sorts_descending :: "(scored list \<Rightarrow> scored list) \<Rightarrow> bool" where
  "sorts_descending sort_values =
     (\<forall>df. mset (sort_values df) = mset df \<and> descending (sort_values df))"

text \<open>
  \<^verbatim>\<open>display_top_k_products\<close> (lines 333-338). The number \<^verbatim>\<open>k\<close> of rows asked for
  is a natural number; the main block passes \<^verbatim>\<open>TOP_K_OVERALL\<close>.
\<close>

definition TOP_K_OVERALL :: nat where
  "TOP_K_OVERALL = 20"

definition display_top_k_products ::
    "(scored list \<Rightarrow> scored list) \<Rightarrow> scored list \<Rightarrow> nat \<Rightarrow> scored list" where
  "display_top_k_products sort_values df k =
     (if df = [] then [] else take k (sort_values df))"

text \<open>
  The stable descending sort, in which rows with equal scores keep the order of the
  input, and a descending sort that is not stable: it puts rows with equal scores in
  the reverse of their input order.
\<close>

definition stable_sort_descending :: "scored list \<Rightarrow> scored list" where
  "stable_sort_descending df = sort_key (\<lambda>r. - final_score r) df"

definition reversing_sort_descending :: "scored list \<Rightarrow> scored list" where
  "reversing_sort_descending df = rev (sort_key final_score df)"

text \<open>
  \<^verbatim>\<open>groupby('source_store_name')\<close>: the groups are taken in ascending order of the
  store name, rows with a null store name belong to no group, and a group holds its rows
  in the order of the frame.
\<close>

definition store_names :: "('p, 'z) product_scheme list \<Rightarrow> string list" where
  "store_names df =
     sort (remdups (concat (map (\<lambda>r. case source_store_name r of None \<Rightarrow> [] | Some s \<Rightarrow> [s]) df)))"

definition store_group :: "string \<Rightarrow> ('p, 'z) product_scheme list \<Rightarrow> ('p, 'z) product_scheme list" where
  "store_group s df = filter (\<lambda>r. source_store_name r = Some s) df"

text \<open>
  \<^verbatim>\<open>nlargest(n)\<close> on the scores of one group is a pandas routine and a parameter of the
  model. What is used of it is that it returns the first \<open>n\<close> rows of some descending
  arrangement of the group (the whole group when it has fewer rows).
\<close>

definition selects_largest :: "(nat \<Rightarrow> scored list \<Rightarrow> scored list) \<Rightarrow> bool" where
  "selects_largest nlargest =
     (\<forall>n g. \<exists>ys. mset ys = mset g \<and> descending ys \<and> nlargest n g = take n ys)"

text \<open>
  \<^verbatim>\<open>display_flagship_products_per_store\<close> (lines 340-346): the rows selected group by
  group, looked up in the frame by their index labels, which are unique in
  \<^verbatim>\<open>combined_df\<close>.
\<close>

definition display_flagship_products_per_store ::
    "(nat \<Rightarrow> scored list \<Rightarrow> scored list) \<Rightarrow> scored list \<Rightarrow> nat \<Rightarrow> scored list" where
  "display_flagship_products_per_store nlargest df n_flagship =
     (if df = [] then []
      else concat (map (\<lambda>s. nlargest n_flagship (store_group s df)) (store_names df)))"

section \<open>Sink writers\<close>

text \<open>
  The rows of the four output tables, without the surrogate \<^verbatim>\<open>id\<close> and the timestamp
  columns. A value is what Python hands to the database driver; the rounding that the
  column types \<^verbatim>\<open>DECIMAL(10, 2)\<close> and \<^verbatim>\<open>FLOAT\<close> apply is not modelled.
\<close>

record scored_products_row =
  sp_product_url :: string
  sp_title :: string
  sp_source_store_name :: string
  sp_price :: "real option"
  sp_is_available_numeric :: int
  sp_description_text :: string
  sp_product_category :: string
  sp_product_tags :: string
  sp_sku :: string
  sp_source_platform :: string
  sp_availability_score :: int
  sp_price_score :: real
  sp_final_score :: real

record top_k_row =
  rank_overall :: nat
  tk_product_url :: "string option"
  tk_title :: "string option"
  tk_source_store_name :: "string option"
  tk_final_score :: real
  tk_source_platform :: "string option"

record flagship_row =
  fl_source_store_name :: "string option"
  store_rank :: nat
  fl_product_url :: "string option"
  fl_title :: "string option"
  fl_final_score :: real
  fl_source_platform :: "string option"

record store_ranking_row =
  sr_source_store_name :: string
  avg_product_score :: "real option"
  max_product_score :: "real option"
  sr_source_platform :: string

text \<open>
  The output store. \<^verbatim>\<open>scored_products\<close> has a unique key on \<^verbatim>\<open>product_url\<close> and is a
  map from that key to the row; the key is taken to identify a URL as string equality
  does. The view tables are lists of rows.
\<close>

record tables =
  scored_products :: "string \<rightharpoonup> scored_products_row"
  top_k_products_overall :: "top_k_row list"
  flagship_products_by_store :: "flagship_row list"
  store_rankings :: "store_ranking_row list"

text \<open>
  A connection of the driver does not commit by itself: statements change the
  connection's own view of the tables, \<^verbatim>\<open>commit\<close> makes that view the stored one, and
  closing the connection discards what was not committed. Statements that the database
  rejects and lost connections are not modelled.
\<close>

record connection =
  committed :: tables
  session :: tables

definition connect :: "tables \<Rightarrow> connection" where
  "connect t = \<lparr> committed = t, session = t \<rparr>"

definition commit :: "connection \<Rightarrow> connection" where
  "commit c = c \<lparr> committed := session c \<rparr>"

definition close :: "connection \<Rightarrow> tables" where
  "close c = committed c"

datatype error = ValueError

text \<open>\<^verbatim>\<open>fillna('N/A').astype(str)\<close> on one value of a text column.\<close>

fun fill_str :: "string option \<Rightarrow> string" where
  "fill_str None = ''N/A''"
| "fill_str (Some s) = s"

text \<open>One tuple of \<^verbatim>\<open>all_data_tuples\<close> (lines 185-206 and 222).\<close>

definition scored_tuple :: "scored \<Rightarrow> scored_products_row" where
  "scored_tuple r =
     \<lparr> sp_product_url = fill_str (product_url r),
       sp_title = fill_str (title r),
       sp_source_store_name = fill_str (source_store_name r),
       sp_price = price r,
       sp_is_available_numeric = is_available_numeric r,
       sp_description_text = description_text r,
       sp_product_category = fill_str (product_category r),
       sp_product_tags = fill_str (product_tags r),
       sp_sku = fill_str (sku r),
       sp_source_platform = fill_str (source_platform r),
       sp_availability_score = availability_score r,
       sp_price_score = price_score r,
       sp_final_score = final_score r \<rparr>"

text \<open>
  \<^verbatim>\<open>INSERT ... ON DUPLICATE KEY UPDATE\<close> of one tuple: a row with the same
  \<^verbatim>\<open>product_url\<close> gets the values of the tuple in every other column, and a tuple with
  a new \<^verbatim>\<open>product_url\<close> becomes a new row. No row is deleted.
\<close>

definition upsert :: "scored_products_row \<Rightarrow> tables \<Rightarrow> tables" where
  "upsert t tb = tb \<lparr> scored_products := (scored_products tb) (sp_product_url t \<mapsto> t) \<rparr>"

definition executemany_upsert :: "scored_products_row list \<Rightarrow> tables \<Rightarrow> tables" where
  "executemany_upsert batch_tuples tb = fold upsert batch_tuples tb"

text \<open>The slices \<^verbatim>\<open>all_data_tuples[i:i + batch_size]\<close> for \<^verbatim>\<open>i\<close> in steps of \<^verbatim>\<open>batch_size\<close>.\<close>

function batches :: "nat \<Rightarrow> 'a list \<Rightarrow> 'a list list" where
  "batches batch_size xs =
     (if xs = [] \<or> batch_size = 0 then []
      else take batch_size xs # batches batch_size (drop batch_size xs))"
  by pat_completeness auto
termination
  by (relation "measure (\<lambda>(batch_size, xs). length xs)") auto

declare batches.simps [simp del]

definition DB_BATCH_SIZE :: nat where
  "DB_BATCH_SIZE = 500"

text \<open>
  \<^verbatim>\<open>save_scored_products_to_db\<close> (lines 181-248). Each batch is executed and committed on
  its own. A batch size of 0 makes \<^verbatim>\<open>range\<close> raise \<^verbatim>\<open>ValueError\<close>.
\<close>

definition save_scored_products_to_db ::
    "scored list \<Rightarrow> connection option \<Rightarrow> nat \<Rightarrow> error + connection option" where
  "save_scored_products_to_db df conn_analysis batch_size =
     (case conn_analysis of
        None \<Rightarrow> Inr None
      | Some c \<Rightarrow>
          if df = [] then Inr (Some c)
          else if batch_size = 0 then Inl ValueError
          else Inr (Some (fold (\<lambda>batch_tuples c. commit (c \<lparr> session := executemany_upsert batch_tuples (session c) \<rparr>))
                            (batches batch_size (map scored_tuple df)) c)))"

text \<open>\<^verbatim>\<open>save_top_k_to_db\<close> (lines 250-265).\<close>

definition top_k_tuples :: "scored list \<Rightarrow> top_k_row list" where
  "top_k_tuples top_k_df =
     map (\<lambda>(i, row).
            \<lparr> rank_overall = i + 1, tk_product_url = product_url row, tk_title = title row,
              tk_source_store_name = source_store_name row, tk_final_score = final_score row,
              tk_source_platform = source_platform row \<rparr>)
         (enumerate 0 top_k_df)"

definition save_top_k_to_db :: "scored list \<Rightarrow> connection option \<Rightarrow> connection option" where
  "save_top_k_to_db top_k_df conn_analysis =
     (case conn_analysis of
        None \<Rightarrow> None
      | Some c \<Rightarrow>
          if top_k_df = [] then Some c
          else Some (commit (c \<lparr> session := (session c) \<lparr> top_k_products_overall := top_k_tuples top_k_df \<rparr> \<rparr>)))"

text \<open>
  \<^verbatim>\<open>save_flagship_to_db\<close> (lines 267-300). The frame is grouped by store again and the
  rows of a group are numbered from 1 in the order in which they stand. The
  \<^verbatim>\<open>DELETE\<close> has been executed, and is not committed, when the function returns for
  want of any group.
\<close>

definition flagship_tuples :: "scored list \<Rightarrow> flagship_row list" where
  "flagship_tuples flagship_df =
     concat (map (\<lambda>s. map (\<lambda>(i, row).
                             \<lparr> fl_source_store_name = source_store_name row, store_rank = i,
                               fl_product_url = product_url row, fl_title = title row,
                               fl_final_score = final_score row,
                               fl_source_platform = source_platform row \<rparr>)
                        (enumerate 1 (store_group s flagship_df)))
                 (store_names flagship_df))"

definition save_flagship_to_db :: "scored list \<Rightarrow> connection option \<Rightarrow> connection option" where
  "save_flagship_to_db flagship_df conn_analysis =
     (case conn_analysis of
        None \<Rightarrow> None
      | Some c \<Rightarrow>
          if flagship_df = [] then Some c
          else
            (let c1 = c \<lparr> session := (session c) \<lparr> flagship_products_by_store := [] \<rparr> \<rparr> in
             if store_names flagship_df = [] then Some c1
             else Some (commit (c1 \<lparr> session := (session c1) \<lparr> flagship_products_by_store := flagship_tuples flagship_df \<rparr> \<rparr>))))"

text \<open>
  \<^verbatim>\<open>save_store_rankings_to_db\<close> (lines 302-330). A series is a list of pairs of a store
  name and a value. The frame built from the two series has their common index when
  they list the same stores in the same order, and the sorted union of the two otherwise;
  a store that one series lacks has NaN there. The left merge looks the platform up in
  the platform map, which has one row for each store, and the platform is
  \<^verbatim>\<open>'Unknown'\<close> when the map has none for the store.
\<close>

definition rankings_df ::
    "(string \<times> real) list \<Rightarrow> (string \<times> real) list \<Rightarrow> (string option \<times> string option) list
       \<Rightarrow> store_ranking_row list" where
  "rankings_df avg_scores_series max_scores_series platform_map_df =
     (let index = (if map fst avg_scores_series = map fst max_scores_series
                   then map fst avg_scores_series
                   else sort (remdups (map fst avg_scores_series @ map fst max_scores_series))) in
      map (\<lambda>s. \<lparr> sr_source_store_name = s,
                 avg_product_score = map_of avg_scores_series s,
                 max_product_score = map_of max_scores_series s,
                 sr_source_platform =
                   (case map_of platform_map_df (Some s) of
                      Some (Some p) \<Rightarrow> p
                    | Some None \<Rightarrow> ''Unknown''
                    | None \<Rightarrow> ''Unknown'') \<rparr>)
          index)"

definition save_store_rankings_to_db ::
    "(string \<times> real) list \<Rightarrow> (string \<times> real) list \<Rightarrow> (string option \<times> string option) list
       \<Rightarrow> connection option \<Rightarrow> connection option" where
  "save_store_rankings_to_db avg_scores_series max_scores_series platform_map_df conn_analysis =
     (case conn_analysis of
        None \<Rightarrow> None
      | Some c \<Rightarrow>
          if avg_scores_series = [] \<and> max_scores_series = [] then Some c
          else Some (commit (c \<lparr> session := (session c)
                 \<lparr> store_rankings := rankings_df avg_scores_series max_scores_series platform_map_df \<rparr> \<rparr>)))"

text \<open>The platform map of line 413: the first row of each store gives its platform.\<close>

definition platform_map :: "scored list \<Rightarrow> (string option \<times> string option) list" where
  "platform_map combined_df =
     map (\<lambda>r. (source_store_name r, source_platform r))
         (drop_duplicates source_store_name [] combined_df)"

text \<open>
  The persistence stage of the main block (lines 406-415) on a connection, and a whole
  run of it: connect to the stored tables, write, close. When no connection can be
  made nothing is written.
\<close>

definition persist ::
    "scored list \<Rightarrow> scored list \<Rightarrow> scored list \<Rightarrow> (string \<times> real) list \<Rightarrow> (string \<times> real) list
       \<Rightarrow> connection option \<Rightarrow> error + connection option" where
  "persist combined_df top_k_df flagship_df_display avg_scores max_scores conn_analysis =
     (case conn_analysis of
        None \<Rightarrow> Inr None
      | Some c \<Rightarrow>
          (case save_scored_products_to_db combined_df conn_analysis DB_BATCH_SIZE of
             Inl e \<Rightarrow> Inl e
           | Inr c1 \<Rightarrow>
               Inr (save_store_rankings_to_db avg_scores max_scores (platform_map combined_df)
                      (save_flagship_to_db flagship_df_display
                         (save_top_k_to_db top_k_df c1)))))"

definition run_persistence ::
    "scored list \<Rightarrow> scored list \<Rightarrow> scored list \<Rightarrow> (string \<times> real) list \<Rightarrow> (string \<times> real) list
       \<Rightarrow> bool \<Rightarrow> tables \<Rightarrow> error + tables" where
  "run_persistence combined_df top_k_df flagship_df_display avg_scores max_scores reachable t =
     (case persist combined_df top_k_df flagship_df_display avg_scores max_scores
             (if reachable then Some (connect t) else None) of
        Inl e \<Rightarrow> Inl e
      | Inr None \<Rightarrow> Inr t
      | Inr (Some c) \<Rightarrow> Inr (close c))"

section \<open>Sample rows\<close>

text \<open>Concrete rows on which the theorems below are instantiated.\<close>

definition sample_prepped :: "string \<Rightarrow> string \<Rightarrow> real option \<Rightarrow> int \<Rightarrow> prepped" where
  "sample_prepped url store p a =
     \<lparr> product_url = Some url, title = Some ''Button'', vendor = Some store, price = p,
       availability = (if a = 1 then Str ''Available'' else Str ''Out of Stock''),
       description = Null, product_category = Some ''N/A'', source_store_name = Some store,
       source_platform = Some ''Shopify'', product_tags = Some ''N/A'', sku = Some ''N/A'',
       is_available_numeric = a, description_text = [] \<rparr>"

definition sample_shopify :: "string \<Rightarrow> string \<Rightarrow> cell \<Rightarrow> cell \<Rightarrow> shopify_record" where
  "sample_shopify url store p a =
     \<lparr> shop_product_url = Some url, shop_title = Some ''Button'', shop_vendor = Some store,
       shop_price = p, shop_availability = a, shop_description = Str ''<p>A button</p>'',
       shop_product_category = Some ''Buttons'', shop_source_store_name = Some store \<rparr>"

definition sample_woocommerce :: "string \<Rightarrow> cell \<Rightarrow> woocommerce_record" where
  "sample_woocommerce url p =
     \<lparr> woo_product_url = Some url, woo_title = Some ''Cap'', woo_price = p,
       woo_product_tags = None, woo_sku = Some ''V1'', woo_product_category = Some ''Caps'' \<rparr>"

definition sample_scored :: "string \<Rightarrow> string \<Rightarrow> real \<Rightarrow> scored" where
  "sample_scored url store f =
     prepped.extend (sample_prepped url store (Some 10) 1) (scored.fields 1 (1 / 2) f)"

definition empty_tables :: tables where
  "empty_tables =
     \<lparr> scored_products = Map.empty, top_k_products_overall = [],
       flagship_products_by_store = [], store_rankings = [] \<rparr>"

section \<open>Basic facts about the model\<close>

lemma py_float_nonneg: "py_float s = Some v \<Longrightarrow> 0 \<le> v"
  by (auto simp: py_float_def Let_def split: list.splits if_splits)

lemma strip_non_numeric_minus: "strip_non_numeric (CHR ''-'' # s) = strip_non_numeric s"
  by (simp add: strip_non_numeric_def is_digit_def)

lemma preprocess_row_cases:
  "p \<in> set (preprocess_combined_data df) \<Longrightarrow>
     \<exists>r0 \<in> set df. p = preprocess_row r0 \<and> clean_and_convert_price (price r0) \<noteq> None"
  by (auto simp: preprocess_combined_data_def split: if_splits)

lemma length_price_score_col: "length (price_score_col ps) = length ps"
  by (simp add: price_score_col_def Let_def)

lemma length_calculate: "length (calculate_attractiveness_score df wa wp) = length df"
  by (simp add: calculate_attractiveness_score_def length_price_score_col)

lemma calculate_nth:
  "i < length df \<Longrightarrow> calculate_attractiveness_score df wa wp ! i
      = score_row wa wp (df ! i) (price_score_col (map price df) ! i)"
  by (auto simp: calculate_attractiveness_score_def length_price_score_col)

lemma scored_row_cases:
  "r \<in> set (calculate_attractiveness_score df wa wp) \<Longrightarrow>
     \<exists>p \<in> set df. \<exists>ps. r = score_row wa wp p ps"
  by (auto simp: calculate_attractiveness_score_def split: if_splits dest!: set_zip_leftD elim!: in_set_zipE)

lemma notnull_values_Some: "notnull_values (map Some ps) = ps"
  by (induction ps) (simp_all add: notnull_values_def)

lemma nunique_Some: "nunique (map Some ps) = card (set ps)"
  by (simp add: nunique_def notnull_values_Some length_remdups_card_conv)

lemma isnull_all_Some: "isnull_all (map Some ps) = (ps = [])"
  by (cases ps) (simp_all add: isnull_all_def)

lemma series_min_Some: "ps \<noteq> [] \<Longrightarrow> series_min (map Some ps) = Some (Min (set ps))"
  unfolding series_min_def notnull_values_Some
  using Min.set_eq_fold [where 'a = real] by (cases ps) simp_all

lemma series_max_Some: "ps \<noteq> [] \<Longrightarrow> series_max (map Some ps) = Some (Max (set ps))"
  unfolding series_max_def notnull_values_Some
  using Max.set_eq_fold [where 'a = real] by (cases ps) simp_all

lemma Min_less_Max:
  fixes A :: "real set"
  assumes "finite A" "1 < card A"
  shows "Min A < Max A"
proof -
  have "A \<noteq> {}" using assms by auto
  have "Min A \<le> Max A" using assms \<open>A \<noteq> {}\<close> by (simp add: Min_le_iff)
  moreover have "Min A \<noteq> Max A"
  proof
    assume e: "Min A = Max A"
    have "\<forall>x\<in>A. x = Min A"
    proof
      fix x assume "x \<in> A"
      then have "Min A \<le> x" "x \<le> Max A" using assms by simp_all
      with e show "x = Min A" by simp
    qed
    then have "A \<subseteq> {Min A}" by auto
    then have "card A \<le> card {Min A}" by (intro card_mono) simp_all
    with assms show False by simp
  qed
  ultimately show ?thesis by simp
qed

lemma price_score_col_Some:
  assumes "ps \<noteq> []"
  shows "price_score_col (map Some ps) =
           (if card (set ps) = 1 then map (\<lambda>p. Some (1 / 2)) ps
            else map (\<lambda>p. Some ((Max (set ps) - p) / (Max (set ps) - Min (set ps)))) ps)"
proof (cases "1 < card (set ps)")
  case True
  then have lt: "Min (set ps) < Max (set ps)" by (intro Min_less_Max) simp_all
  have c: "card (set ps) \<noteq> 1" using True by simp
  have n: "1 < nunique (map Some ps)" using True by (simp add: nunique_Some)
  have a: "\<not> isnull_all (map Some ps)" using assms by (simp add: isnull_all_Some)
  have e: "\<not> nan_eq (series_max (map Some ps)) (series_min (map Some ps))"
    using lt by (simp add: series_min_Some [OF assms] series_max_Some [OF assms])
  have "price_score_col (map Some ps) =
          map (\<lambda>p. nan_div (nan_sub (Some (Max (set ps))) p)
                 (nan_sub (Some (Max (set ps))) (Some (Min (set ps))))) (map Some ps)"
    using n a e unfolding price_score_col_def Let_def
    by (simp only: if_True if_False simp_thms series_min_Some [OF assms] series_max_Some [OF assms])
  also have "\<dots> = map (\<lambda>p. Some ((Max (set ps) - p) / (Max (set ps) - Min (set ps)))) ps"
    by (simp add: comp_def)
  finally show ?thesis using c by (simp only: if_False)
next
  case False
  moreover have "0 < card (set ps)" using assms by (simp add: card_gt_0_iff)
  ultimately have c: "card (set ps) = 1" by simp
  have n: "\<not> 1 < nunique (map Some ps)" using c by (simp add: nunique_Some)
  have a: "\<not> isnull_all (map Some ps)" using assms by (simp add: isnull_all_Some)
  have l: "0 < length (map Some ps)" using assms by simp
  have "price_score_col (map Some ps) = map (\<lambda>p. Some (1 / 2)) (map Some ps)"
    using n a l unfolding price_score_col_def by (simp only: if_True if_False simp_thms)
  also have "\<dots> = map (\<lambda>p. Some (1 / 2)) ps" by (simp add: comp_def)
  finally show ?thesis using c by simp
qed

lemma score_row_sel [simp]:
  "price_score (score_row wa wp r ps) = fillna0 ps"
  "availability_score (score_row wa wp r ps) = is_available_numeric r"
  "final_score (score_row wa wp r ps) = real_of_int (is_available_numeric r) * wa + fillna0 ps * wp"
  "is_available_numeric (score_row wa wp r ps) = is_available_numeric r"
  "description_text (score_row wa wp r ps) = description_text r"
  "product_url (score_row wa wp r ps) = product_url r"
  "title (score_row wa wp r ps) = title r"
  "vendor (score_row wa wp r ps) = vendor r"
  "price (score_row wa wp r ps) = price r"
  "availability (score_row wa wp r ps) = availability r"
  "description (score_row wa wp r ps) = description r"
  "product_category (score_row wa wp r ps) = product_category r"
  "source_store_name (score_row wa wp r ps) = source_store_name r"
  "source_platform (score_row wa wp r ps) = source_platform r"
  "product_tags (score_row wa wp r ps) = product_tags r"
  "sku (score_row wa wp r ps) = sku r"
  by (simp_all add: score_row_def prepped.defs scored.defs)

section \<open>The scorer\<close>

text \<open>
  C1. For a non-empty batch all of whose prices are parsed (\<open>map price df = map Some ps\<close>),
  \<^verbatim>\<open>calculate_attractiveness_score\<close> gives every row a \<^verbatim>\<open>price_score\<close> between 0 and 1.
  If all prices of the batch are equal (the set of prices has one element), or the batch
  has a single row, the score of every row is exactly 1/2; otherwise it is
  \<open>(max - price) / (max - min)\<close> over the prices of the batch.
\<close>

theorem price_score_bounds_and_formula:
  assumes "df \<noteq> []" and "map price df = map Some ps" and "i < length df"
  shows "0 \<le> price_score (calculate_attractiveness_score df w_availability w_price ! i)
       \<and> price_score (calculate_attractiveness_score df w_availability w_price ! i) \<le> 1
       \<and> price_score (calculate_attractiveness_score df w_availability w_price ! i) =
           (if card (set ps) = 1 \<or> length df = 1 then 1 / 2
            else (Max (set ps) - ps ! i) / (Max (set ps) - Min (set ps)))"
proof -
  let ?out = "calculate_attractiveness_score df w_availability w_price"
  have len: "length ps = length df" using assms(2) by (metis length_map)
  then have ne: "ps \<noteq> []" using assms(1) by auto
  have i: "i < length ps" using len assms(3) by simp
  have one: "length df = 1 \<Longrightarrow> card (set ps) = 1"
  proof -
    assume "length df = 1"
    then have "length ps = 1" using len by simp
    then obtain x where "ps = [x]" by (cases ps) auto
    then show ?thesis by simp
  qed
  have val: "price_score (?out ! i) =
          (if card (set ps) = 1 then 1 / 2 else (Max (set ps) - ps ! i) / (Max (set ps) - Min (set ps)))"
    using i assms(3) by (simp add: calculate_nth assms(2) price_score_col_Some [OF ne])
  have bounds: "0 \<le> price_score (?out ! i) \<and> price_score (?out ! i) \<le> 1"
  proof (cases "card (set ps) = 1")
    case True
    then show ?thesis using val by simp
  next
    case False
    have mem: "ps ! i \<in> set ps" using i by simp
    have lo: "Min (set ps) \<le> ps ! i" and hi: "ps ! i \<le> Max (set ps)" using mem by simp_all
    have "0 < card (set ps)" using ne by (simp add: card_gt_0_iff)
    with False have "1 < card (set ps)" by simp
    then have lt: "Min (set ps) < Max (set ps)" by (intro Min_less_Max) simp_all
    have eq: "price_score (?out ! i) = (Max (set ps) - ps ! i) / (Max (set ps) - Min (set ps))"
      using val False by simp
    have "0 \<le> (Max (set ps) - ps ! i) / (Max (set ps) - Min (set ps))"
      using hi lt by simp
    moreover have "(Max (set ps) - ps ! i) / (Max (set ps) - Min (set ps)) \<le> 1"
      using lo lt by (simp add: divide_le_eq_1)
    ultimately show ?thesis using eq by simp
  qed
  show ?thesis using bounds val one by auto
qed

theorem price_score_bounds_and_formula_witness:
  "[sample_prepped ''A'' ''S'' (Some 10) 1, sample_prepped ''B'' ''S'' (Some 30) 0] \<noteq> []
   \<and> map price [sample_prepped ''A'' ''S'' (Some 10) 1, sample_prepped ''B'' ''S'' (Some 30) 0]
       = map Some [10, 30]
   \<and> (0::nat) < length [sample_prepped ''A'' ''S'' (Some 10) 1, sample_prepped ''B'' ''S'' (Some 30) 0]
   \<and> price_score (calculate_attractiveness_score
        [sample_prepped ''A'' ''S'' (Some 10) 1, sample_prepped ''B'' ''S'' (Some 30) 0]
        WEIGHT_AVAILABILITY WEIGHT_PRICE ! 0) = 1"
proof -
  let ?df = "[sample_prepped ''A'' ''S'' (Some 10) 1, sample_prepped ''B'' ''S'' (Some 30) 0]"
  have h1: "?df \<noteq> []" by simp
  have h2: "map price ?df = map Some [10, 30]" by (simp add: sample_prepped_def)
  have h3: "(0::nat) < length ?df" by simp
  have "price_score (calculate_attractiveness_score ?df WEIGHT_AVAILABILITY WEIGHT_PRICE ! 0)
          = (if card (set [10, 30 :: real]) = 1 \<or> length ?df = 1 then 1 / 2
             else (Max (set [10, 30]) - [10, 30] ! 0) / (Max (set [10, 30]) - Min (set [10, 30])))"
    using price_score_bounds_and_formula [OF h1 h2 h3] by blast
  then show ?thesis using h2 by simp
qed

lemma series_min_notnull:
  "series_min col = (if notnull_values col = [] then None else Some (Min (set (notnull_values col))))"
  unfolding series_min_def
  using Min.set_eq_fold [where 'a = real] by (cases "notnull_values col") simp_all

lemma series_max_notnull:
  "series_max col = (if notnull_values col = [] then None else Some (Max (set (notnull_values col))))"
  unfolding series_max_def
  using Max.set_eq_fold [where 'a = real] by (cases "notnull_values col") simp_all

lemma nunique_gt1_min_max:
  assumes "1 < nunique col"
  shows "\<exists>mn mx. series_min col = Some mn \<and> series_max col = Some mx \<and> mn < mx"
proof -
  have c: "1 < card (set (notnull_values col))"
    using assms by (simp add: nunique_def length_remdups_card_conv)
  then have "notnull_values col \<noteq> []" by auto
  moreover have "Min (set (notnull_values col)) < Max (set (notnull_values col))"
    using c by (intro Min_less_Max) simp_all
  ultimately show ?thesis by (simp add: series_min_notnull series_max_notnull)
qed

lemma nunique_gt1_not_all_null: "1 < nunique col \<Longrightarrow> \<not> isnull_all col"
proof
  assume a: "1 < nunique col" and b: "isnull_all col"
  from b have "notnull_values col = []"
    by (induction col) (simp_all add: isnull_all_def notnull_values_def)
  with a show False by (simp add: nunique_def)
qed

lemma price_score_col_nth_None:
  assumes "i < length col"
  shows "price_score_col col ! i = None \<longleftrightarrow> col ! i = None \<and> 1 < nunique col"
proof (cases "1 < nunique col")
  case True
  then obtain mn mx where m: "series_min col = Some mn" "series_max col = Some mx" "mn < mx"
    using nunique_gt1_min_max by blast
  have "price_score_col col = map (\<lambda>p. nan_div (nan_sub (Some mx) p) (Some (mx - mn))) col"
    using True nunique_gt1_not_all_null [OF True] m by (simp add: price_score_col_def)
  then have "price_score_col col ! i = nan_div (nan_sub (Some mx) (col ! i)) (Some (mx - mn))"
    using assms by simp
  then show ?thesis using True by (cases "col ! i") simp_all
next
  case False
  then have "price_score_col col = map (\<lambda>p. Some (1 / 2)) col
           \<or> price_score_col col = map (\<lambda>p. Some 0) col"
    by (simp add: price_score_col_def)
  then have "price_score_col col ! i = Some (1 / 2) \<or> price_score_col col ! i = Some 0"
    using assms by (metis nth_map)
  then show ?thesis using False by (metis option.distinct(1))
qed

text \<open>
  C2. For every row that \<^verbatim>\<open>calculate_attractiveness_score\<close> puts out,
  \<open>final_score = w_availability * availability_score + w_price * price_score\<close>, with
  the weights as they are given. The \<^verbatim>\<open>price_score\<close> that enters the sum is the
  computed column with NaN replaced by 0; a NaN is computed exactly for a row whose price
  is null while the batch has at least two distinct prices, and the final score of such
  a row is \<open>w_availability * availability_score\<close>.
\<close>

theorem final_score_weighted_sum:
  assumes "i < length df"
  shows "final_score (calculate_attractiveness_score df w_availability w_price ! i) =
           w_availability * real_of_int (availability_score (calculate_attractiveness_score df w_availability w_price ! i))
           + w_price * price_score (calculate_attractiveness_score df w_availability w_price ! i)
       \<and> price_score (calculate_attractiveness_score df w_availability w_price ! i) =
           (case price_score_col (map price df) ! i of None \<Rightarrow> 0 | Some v \<Rightarrow> v)
       \<and> (price_score_col (map price df) ! i = None \<longleftrightarrow>
            price (df ! i) = None \<and> 1 < nunique (map price df))
       \<and> (price_score_col (map price df) ! i = None \<longrightarrow>
            final_score (calculate_attractiveness_score df w_availability w_price ! i) =
              w_availability * real_of_int (availability_score (calculate_attractiveness_score df w_availability w_price ! i)))"
proof -
  let ?out = "calculate_attractiveness_score df w_availability w_price"
  let ?ps = "price_score_col (map price df) ! i"
  have row: "?out ! i = score_row w_availability w_price (df ! i) ?ps"
    using assms by (rule calculate_nth)
  have fs: "final_score (?out ! i) =
      w_availability * real_of_int (availability_score (?out ! i)) + w_price * price_score (?out ! i)"
    by (simp add: row mult.commute)
  have ps: "price_score (?out ! i) = (case ?ps of None \<Rightarrow> 0 | Some v \<Rightarrow> v)"
    by (cases ?ps) (simp_all add: row)
  have nan: "?ps = None \<longleftrightarrow> price (df ! i) = None \<and> 1 < nunique (map price df)"
    using price_score_col_nth_None [of i "map price df"] assms by simp
  have z: "?ps = None \<longrightarrow> final_score (?out ! i) = w_availability * real_of_int (availability_score (?out ! i))"
    using fs ps by simp
  show ?thesis using fs ps nan z by blast
qed

theorem final_score_weighted_sum_witness:
  "(2::nat) < length [sample_prepped ''A'' ''S'' (Some 10) 1, sample_prepped ''B'' ''S'' (Some 30) 0,
                      sample_prepped ''C'' ''S'' None 1]
   \<and> final_score (calculate_attractiveness_score
        [sample_prepped ''A'' ''S'' (Some 10) 1, sample_prepped ''B'' ''S'' (Some 30) 0,
         sample_prepped ''C'' ''S'' None 1] WEIGHT_AVAILABILITY WEIGHT_PRICE ! 2) = 6 / 10
   \<and> price_score (calculate_attractiveness_score
        [sample_prepped ''A'' ''S'' (Some 10) 1, sample_prepped ''B'' ''S'' (Some 30) 0,
         sample_prepped ''C'' ''S'' None 1] WEIGHT_AVAILABILITY WEIGHT_PRICE ! 2) = 0"
proof -
  let ?df = "[sample_prepped ''A'' ''S'' (Some 10) 1, sample_prepped ''B'' ''S'' (Some 30) 0,
              sample_prepped ''C'' ''S'' None 1]"
  let ?out = "calculate_attractiveness_score ?df WEIGHT_AVAILABILITY WEIGHT_PRICE"
  have h: "(2::nat) < length ?df" by simp
  have n: "price (?df ! 2) = None \<and> 1 < nunique (map price ?df)"
    by (simp add: sample_prepped_def nunique_def notnull_values_def)
  have a: "availability_score (?out ! 2) = 1"
    using h by (simp add: calculate_nth sample_prepped_def)
  note t = final_score_weighted_sum [OF h, of WEIGHT_AVAILABILITY WEIGHT_PRICE]
  have nan: "price_score_col (map price ?df) ! 2 = None"
    using t [THEN conjunct2, THEN conjunct2, THEN conjunct1] n by (simp only: simp_thms)
  have p: "price_score (?out ! 2) = 0"
    using t [THEN conjunct2, THEN conjunct1] by (simp only: nan option.case)
  have "final_score (?out ! 2) = WEIGHT_AVAILABILITY * real_of_int (availability_score (?out ! 2))"
    using t [THEN conjunct2, THEN conjunct2, THEN conjunct2] nan by (simp only: simp_thms)
  then have f: "final_score (?out ! 2) = 6 / 10"
    by (simp only: a) (simp add: WEIGHT_AVAILABILITY_def)
  show ?thesis using h p f by (simp only: simp_thms)
qed

section \<open>Price cleaning and the availability flag\<close>

lemma clean_string_nonneg: "clean_and_convert_price (Str s) = Some v \<Longrightarrow> 0 \<le> v"
  by (auto simp: Let_def split: if_splits dest: py_float_nonneg)

text \<open>
  C9. For a price given as a string, the cleaning step removes the minus sign together
  with every other character that is neither a digit nor a point. The converted price
  is therefore absent or not negative, a leading minus sign changes nothing, and the
  text \<^verbatim>\<open>-5.00\<close> becomes the price 5, with which the row is kept.
\<close>

theorem string_price_loses_sign:
  "(case clean_and_convert_price (Str s) of None \<Rightarrow> True | Some v \<Rightarrow> 0 \<le> v)
   \<and> CHR ''-'' \<notin> set (strip_non_numeric s)
   \<and> clean_and_convert_price (Str (CHR ''-'' # s)) = clean_and_convert_price (Str s)
   \<and> clean_and_convert_price (Str ''-5.00'') = Some 5
   \<and> map price (preprocess_combined_data [r \<lparr> price := Str ''-5.00'' \<rparr>]) = [Some 5]"
proof -
  have a: "case clean_and_convert_price (Str s) of None \<Rightarrow> True | Some v \<Rightarrow> 0 \<le> v"
    using clean_string_nonneg [of s] by (cases "clean_and_convert_price (Str s)") simp_all
  have b: "CHR ''-'' \<notin> set (strip_non_numeric s)"
    by (simp add: strip_non_numeric_def is_digit_def)
  have c: "clean_and_convert_price (Str (CHR ''-'' # s)) = clean_and_convert_price (Str s)"
    by (simp add: strip_non_numeric_minus)
  have d: "clean_and_convert_price (Str ''-5.00'') = Some 5"
    by (simp add: strip_non_numeric_def py_float_def is_digit_def dec_val_def digit_val_def)
  have e: "map price (preprocess_combined_data [r \<lparr> price := Str ''-5.00'' \<rparr>]) = [Some 5]"
    using d by (simp add: preprocess_combined_data_def preprocess_row_def)
  show ?thesis using a b c d e by blast
qed

lemma availability_flag_iff:
  "availability_flag x = 1 \<longleftrightarrow> (\<exists>s. x = Str s \<and> lower s = ''available'')"
  by (cases x) simp_all

lemma availability_flag_01: "availability_flag x = 0 \<or> availability_flag x = 1"
  by (cases x) simp_all

text \<open>
  C10. For every scored row, \<^verbatim>\<open>availability_score\<close> is 1 if and only if the raw
  availability value is a string whose lower-case form is exactly \<^verbatim>\<open>available\<close>, and
  it is 0 otherwise: for a null, for a value that is not a string, and for any other
  wording such as \<^verbatim>\<open>in stock\<close>.
\<close>

theorem availability_score_exact_match:
  "(\<forall>r \<in> set (calculate_attractiveness_score (preprocess_combined_data df) w_availability w_price).
      (availability_score r = 1 \<longleftrightarrow> (\<exists>s. availability r = Str s \<and> lower s = ''available''))
      \<and> (availability_score r = 0 \<longleftrightarrow> \<not> (\<exists>s. availability r = Str s \<and> lower s = ''available'')))
   \<and> availability_flag Null = 0
   \<and> availability_flag (Num v) = 0
   \<and> availability_flag (Str ''in stock'') = 0
   \<and> availability_flag (Str ''Available now'') = 0
   \<and> availability_flag (Str ''AVAILABLE'') = 1"
proof -
  have flag: "availability_score r = availability_flag (availability r)"
    if "r \<in> set (calculate_attractiveness_score (preprocess_combined_data df) w_availability w_price)" for r
  proof -
    from that obtain p ps where p: "p \<in> set (preprocess_combined_data df)"
      and r: "r = score_row w_availability w_price p ps"
      using scored_row_cases by blast
    from p obtain r0 where "p = preprocess_row r0" using preprocess_row_cases by blast
    then show ?thesis using r by (simp add: preprocess_row_def)
  qed
  have zero: "availability_flag x = 0 \<longleftrightarrow> \<not> (\<exists>s. x = Str s \<and> lower s = ''available'')" for x
    using availability_flag_iff [of x] availability_flag_01 [of x] by auto
  have rows: "\<forall>r \<in> set (calculate_attractiveness_score (preprocess_combined_data df) w_availability w_price).
      (availability_score r = 1 \<longleftrightarrow> (\<exists>s. availability r = Str s \<and> lower s = ''available''))
      \<and> (availability_score r = 0 \<longleftrightarrow> \<not> (\<exists>s. availability r = Str s \<and> lower s = ''available''))"
    using flag availability_flag_iff zero by simp
  have e1: "availability_flag (Str ''in stock'') = 0" by (simp add: lower_def lower_char_def)
  have e2: "availability_flag (Str ''Available now'') = 0" by (simp add: lower_def lower_char_def)
  have e3: "availability_flag (Str ''AVAILABLE'') = 1" by (simp add: lower_def lower_char_def)
  show ?thesis using rows e1 e2 e3 by simp
qed

theorem availability_score_exact_match_witness:
  "length (calculate_attractiveness_score (preprocess_combined_data
       (fetch_shopify_data (Some [sample_shopify ''A'' ''S'' (Num 10) (Str ''AVAILABLE''),
                                  sample_shopify ''B'' ''S'' (Num 30) (Str ''in stock'')])))
       WEIGHT_AVAILABILITY WEIGHT_PRICE) = 2
   \<and> availability_score (calculate_attractiveness_score (preprocess_combined_data
       (fetch_shopify_data (Some [sample_shopify ''A'' ''S'' (Num 10) (Str ''AVAILABLE''),
                                  sample_shopify ''B'' ''S'' (Num 30) (Str ''in stock'')])))
       WEIGHT_AVAILABILITY WEIGHT_PRICE ! 0) = 1
   \<and> availability_score (calculate_attractiveness_score (preprocess_combined_data
       (fetch_shopify_data (Some [sample_shopify ''A'' ''S'' (Num 10) (Str ''AVAILABLE''),
                                  sample_shopify ''B'' ''S'' (Num 30) (Str ''in stock'')])))
       WEIGHT_AVAILABILITY WEIGHT_PRICE ! 1) = 0"
proof -
  let ?df = "fetch_shopify_data (Some [sample_shopify ''A'' ''S'' (Num 10) (Str ''AVAILABLE''),
                                  sample_shopify ''B'' ''S'' (Num 30) (Str ''in stock'')])"
  let ?out = "calculate_attractiveness_score (preprocess_combined_data ?df)
                WEIGHT_AVAILABILITY WEIGHT_PRICE"
  have pre: "preprocess_combined_data ?df =
      [preprocess_row (shopify_row (sample_shopify ''A'' ''S'' (Num 10) (Str ''AVAILABLE''))),
       preprocess_row (shopify_row (sample_shopify ''B'' ''S'' (Num 30) (Str ''in stock'')))]"
    by (simp add: fetch_shopify_data_def preprocess_combined_data_def sample_shopify_def shopify_row_def)
  have len: "length ?out = 2" by (simp add: length_calculate pre)
  have a0: "availability (?out ! 0) = Str ''AVAILABLE''"
    unfolding pre
    by (simp add: calculate_nth preprocess_row_def shopify_row_def sample_shopify_def)
  have a1: "availability (?out ! 1) = Str ''in stock''"
    unfolding pre
    by (simp add: calculate_nth preprocess_row_def shopify_row_def sample_shopify_def)
  have m0: "?out ! 0 \<in> set ?out" and m1: "?out ! 1 \<in> set ?out"
    using len by (simp_all del: One_nat_def)
  note t = availability_score_exact_match [of ?df WEIGHT_AVAILABILITY WEIGHT_PRICE 0, THEN conjunct1]
  have l0: "lower ''AVAILABLE'' = ''available''" by (simp add: lower_def lower_char_def)
  have l1: "lower ''in stock'' \<noteq> ''available''" by (simp add: lower_def lower_char_def)
  have "availability_score (?out ! 0) = 1"
    using t [rule_format, OF m0] a0 l0 by simp
  moreover have "availability_score (?out ! 1) = 0"
    using t [rule_format, OF m1] a1 l1 by simp
  ultimately show ?thesis using len by simp
qed

section \<open>Preprocessing and what reaches the views\<close>

lemma preprocess_as_filter:
  "preprocess_combined_data df =
     map preprocess_row (filter (\<lambda>r. clean_and_convert_price (price r) \<noteq> None) df)"
  by (simp add: preprocess_combined_data_def)

lemma preprocess_row_sel [simp]:
  "product_url (preprocess_row r) = product_url r"
  "price (preprocess_row r) = clean_and_convert_price (price r)"
  "availability (preprocess_row r) = availability r"
  "description (preprocess_row r) = description r"
  "source_platform (preprocess_row r) = source_platform r"
  "title (preprocess_row r) = fillna_NA (title r)"
  "vendor (preprocess_row r) = fillna_NA (vendor r)"
  "product_category (preprocess_row r) = fillna_NA (product_category r)"
  "source_store_name (preprocess_row r) = fillna_NA (source_store_name r)"
  "product_tags (preprocess_row r) = fillna_NA (product_tags r)"
  "sku (preprocess_row r) = fillna_NA (sku r)"
  "is_available_numeric (preprocess_row r) = availability_flag (availability r)"
  "description_text (preprocess_row r) = clean_html (description r)"
  by (simp_all add: preprocess_row_def)

lemma scored_origin:
  assumes "r \<in> set (calculate_attractiveness_score (preprocess_combined_data df) wa wp)"
  shows "\<exists>r0 \<in> set df. \<exists>v. clean_and_convert_price (price r0) = Some v \<and> price r = Some v
            \<and> product_url r = product_url r0"
proof -
  from assms obtain p ps where p: "p \<in> set (preprocess_combined_data df)"
    and r: "r = score_row wa wp p ps"
    using scored_row_cases by blast
  from p obtain r0 where r0: "r0 \<in> set df" "p = preprocess_row r0"
    "clean_and_convert_price (price r0) \<noteq> None"
    using preprocess_row_cases by blast
  then obtain v where "clean_and_convert_price (price r0) = Some v" by auto
  with r r0 show ?thesis by auto
qed

lemma top_k_subset:
  assumes "sorts_descending sort_values"
  shows "set (display_top_k_products sort_values df k) \<subseteq> set df"
proof -
  have "set (sort_values df) = set df"
    using assms unfolding sorts_descending_def by (metis mset_eq_setD)
  then show ?thesis
    using set_take_subset [of k "sort_values df"] by (auto simp: display_top_k_products_def)
qed

lemma store_group_subset: "set (store_group s df) \<subseteq> set df"
  by (auto simp: store_group_def)

lemma nlargest_subset:
  assumes "selects_largest nlargest"
  shows "set (nlargest n g) \<subseteq> set g"
proof -
  from assms obtain ys where "mset ys = mset g" "nlargest n g = take n ys"
    unfolding selects_largest_def by blast
  then show ?thesis using set_take_subset [of n ys] mset_eq_setD [of ys g] by auto
qed

lemma flagship_subset:
  assumes "selects_largest nlargest"
  shows "set (display_flagship_products_per_store nlargest df n) \<subseteq> set df"
proof
  fix r assume "r \<in> set (display_flagship_products_per_store nlargest df n)"
  then obtain s where "r \<in> set (nlargest n (store_group s df))"
    by (auto simp: display_flagship_products_per_store_def split: if_splits)
  then have "r \<in> set (store_group s df)" using nlargest_subset [OF assms] by blast
  then show "r \<in> set df" using store_group_subset by blast
qed

lemma top_k_tuples_origin:
  "t \<in> set (top_k_tuples xs) \<Longrightarrow> \<exists>r \<in> set xs. tk_product_url t = product_url r"
  by (auto simp: top_k_tuples_def in_set_enumerate_eq)

lemma flagship_tuples_origin:
  "t \<in> set (flagship_tuples xs) \<Longrightarrow> \<exists>r \<in> set xs. fl_product_url t = product_url r"
proof -
  assume "t \<in> set (flagship_tuples xs)"
  then obtain s i r where "(i, r) \<in> set (enumerate 1 (store_group s xs))"
    and "fl_product_url t = product_url r"
    by (auto simp: flagship_tuples_def)
  moreover then have "r \<in> set (store_group s xs)"
    by (auto simp: in_set_enumerate_eq)
  ultimately show ?thesis using store_group_subset by blast
qed

lemma scored_tuple_price: "sp_price (scored_tuple r) = price r"
  by (simp add: scored_tuple_def)

lemma descending_stable_sort: "descending (stable_sort_descending df)"
proof -
  have "sorted (map (\<lambda>r. - final_score r) (sort_key (\<lambda>r. - final_score r) df))"
    by (rule sorted_sort_key)
  then show ?thesis by (simp add: descending_def stable_sort_descending_def sorted_map)
qed

lemma sorts_descending_stable: "sorts_descending stable_sort_descending"
  using descending_stable_sort by (simp add: sorts_descending_def stable_sort_descending_def)

lemma descending_reversing_sort: "descending (reversing_sort_descending df)"
proof -
  have "sorted (map final_score (sort_key final_score df))" by (rule sorted_sort_key)
  then have "sorted_wrt (\<lambda>a b. final_score a \<le> final_score b) (sort_key final_score df)"
    by (simp add: sorted_map)
  then show ?thesis
    by (simp add: descending_def reversing_sort_descending_def sorted_wrt_rev)
qed

lemma sorts_descending_reversing: "sorts_descending reversing_sort_descending"
  using descending_reversing_sort by (simp add: sorts_descending_def reversing_sort_descending_def)

lemma selects_largest_stable: "selects_largest (\<lambda>n g. take n (stable_sort_descending g))"
  unfolding selects_largest_def
proof (intro allI)
  fix n g
  show "\<exists>ys. mset ys = mset g \<and> descending ys \<and> take n (stable_sort_descending g) = take n ys"
    using descending_stable_sort [of g]
    by (intro exI [of _ "stable_sort_descending g"]) (simp add: stable_sort_descending_def)
qed



section \<open>Default values\<close>

lemma fillna_NA_fill_str: "fillna_NA v = Some (fill_str v)"
  by (cases v) simp_all

text \<open>
  C7, as stated, asks that after preprocessing the description that a WooCommerce row
  lacks holds the sentinel \<^verbatim>\<open>N/A\<close>. It does not: for a WooCommerce row with the price
  \<^verbatim>\<open>$5.00\<close> the \<^verbatim>\<open>description\<close> column is still null after preprocessing, and the
  derived \<^verbatim>\<open>description_text\<close> is the empty string.
\<close>

theorem missing_description_not_filled_counterexample:
  "map description (preprocess_combined_data
      (combine (fetch_shopify_data None)
               (fetch_woocommerce_data (Some [sample_woocommerce ''B'' (Str ''$5.00'')])))) = [Null]
   \<and> map description_text (preprocess_combined_data
      (combine (fetch_shopify_data None)
               (fetch_woocommerce_data (Some [sample_woocommerce ''B'' (Str ''$5.00'')])))) = [[]]
   \<and> map description_text (preprocess_combined_data
      (combine (fetch_shopify_data None)
               (fetch_woocommerce_data (Some [sample_woocommerce ''B'' (Str ''$5.00'')])))) \<noteq> [''N/A'']"
proof -
  have p: "clean_and_convert_price (Str ''$5.00'') = Some 5"
    by (simp add: strip_non_numeric_def py_float_def is_digit_def dec_val_def digit_val_def)
  have "combine (fetch_shopify_data None)
               (fetch_woocommerce_data (Some [sample_woocommerce ''B'' (Str ''$5.00'')]))
        = [woocommerce_row (sample_woocommerce ''B'' (Str ''$5.00''))]"
    by (simp add: combine_def fetch_shopify_data_def fetch_woocommerce_data_def all_null_def
        woocommerce_row_def sample_woocommerce_def)
  moreover have "price (woocommerce_row (sample_woocommerce ''B'' (Str ''$5.00''))) = Str ''$5.00''"
    by (simp add: woocommerce_row_def sample_woocommerce_def)
  moreover have "description (woocommerce_row (sample_woocommerce ''B'' (Str ''$5.00''))) = Null"
    by (simp add: woocommerce_row_def)
  ultimately show ?thesis using p by (simp add: preprocess_as_filter)
qed

text \<open>
  C7, amended. After preprocessing, the six text fields \<^verbatim>\<open>title\<close>, \<^verbatim>\<open>vendor\<close>,
  \<^verbatim>\<open>product_category\<close>, \<^verbatim>\<open>source_store_name\<close>, \<^verbatim>\<open>product_tags\<close> and \<^verbatim>\<open>sku\<close> of
  every row are never null: each holds the value of the source, or \<^verbatim>\<open>N/A\<close> where the
  source has none, as for \<^verbatim>\<open>product_tags\<close> and \<^verbatim>\<open>sku\<close> of a Shopify row. The
  \<^verbatim>\<open>description\<close> column is left as it is, so it stays null for a WooCommerce row, and
  the derived \<^verbatim>\<open>description_text\<close> is the cleaned description, which is the empty
  string for a missing one. \<^verbatim>\<open>is_available_numeric\<close> is 0 or 1 and the price is a
  number.
\<close>

theorem text_fields_filled_description_empty:
  "(\<forall>p \<in> set (preprocess_combined_data df). \<exists>r \<in> set df.
       title p = Some (fill_str (title r))
     \<and> vendor p = Some (fill_str (vendor r))
     \<and> product_category p = Some (fill_str (product_category r))
     \<and> source_store_name p = Some (fill_str (source_store_name r))
     \<and> product_tags p = Some (fill_str (product_tags r))
     \<and> sku p = Some (fill_str (sku r))
     \<and> description p = description r
     \<and> description_text p = clean_html (description r)
     \<and> (is_available_numeric p = 0 \<or> is_available_numeric p = 1)
     \<and> price p \<noteq> None)
   \<and> product_tags (preprocess_row (shopify_row s)) = Some ''N/A''
   \<and> sku (preprocess_row (shopify_row s)) = Some ''N/A''
   \<and> description (preprocess_row (woocommerce_row w)) = Null
   \<and> description_text (preprocess_row (woocommerce_row w)) = []"
proof -
  have rows: "\<forall>p \<in> set (preprocess_combined_data df). \<exists>r \<in> set df.
       title p = Some (fill_str (title r))
     \<and> vendor p = Some (fill_str (vendor r))
     \<and> product_category p = Some (fill_str (product_category r))
     \<and> source_store_name p = Some (fill_str (source_store_name r))
     \<and> product_tags p = Some (fill_str (product_tags r))
     \<and> sku p = Some (fill_str (sku r))
     \<and> description p = description r
     \<and> description_text p = clean_html (description r)
     \<and> (is_available_numeric p = 0 \<or> is_available_numeric p = 1)
     \<and> price p \<noteq> None"
  proof
    fix p assume "p \<in> set (preprocess_combined_data df)"
    then obtain r where r: "r \<in> set df" "p = preprocess_row r"
      "clean_and_convert_price (price r) \<noteq> None"
      using preprocess_row_cases by blast
    show "\<exists>r \<in> set df.
       title p = Some (fill_str (title r))
     \<and> vendor p = Some (fill_str (vendor r))
     \<and> product_category p = Some (fill_str (product_category r))
     \<and> source_store_name p = Some (fill_str (source_store_name r))
     \<and> product_tags p = Some (fill_str (product_tags r))
     \<and> sku p = Some (fill_str (sku r))
     \<and> description p = description r
     \<and> description_text p = clean_html (description r)
     \<and> (is_available_numeric p = 0 \<or> is_available_numeric p = 1)
     \<and> price p \<noteq> None"
      using r availability_flag_01 [of "availability r"]
      by (intro bexI [of _ r]) (simp_all add: fillna_NA_fill_str)
  qed
  have s1: "product_tags (preprocess_row (shopify_row s)) = Some ''N/A''"
    and s2: "sku (preprocess_row (shopify_row s)) = Some ''N/A''"
    by (simp_all add: shopify_row_def)
  have w1: "description (preprocess_row (woocommerce_row w)) = Null"
    and w2: "description_text (preprocess_row (woocommerce_row w)) = []"
    by (simp_all add: woocommerce_row_def)
  show ?thesis using rows s1 s2 w1 w2 by (intro conjI)
qed

theorem text_fields_filled_description_empty_witness:
  "map product_tags (preprocess_combined_data
      [woocommerce_row (sample_woocommerce ''B'' (Str ''$5.00''))]) = [Some ''N/A'']"
proof -
  let ?r = "woocommerce_row (sample_woocommerce ''B'' (Str ''$5.00''))"
  have p: "clean_and_convert_price (price ?r) = Some 5"
    by (simp add: woocommerce_row_def sample_woocommerce_def strip_non_numeric_def py_float_def
        is_digit_def dec_val_def digit_val_def)
  have pre: "preprocess_combined_data [?r] = [preprocess_row ?r]"
    using p by (simp add: preprocess_as_filter)
  then have "preprocess_row ?r \<in> set (preprocess_combined_data [?r])" by simp
  with text_fields_filled_description_empty [of "[?r]", THEN conjunct1]
  have "\<exists>r \<in> set [?r]. product_tags (preprocess_row ?r) = Some (fill_str (product_tags r))"
    by blast
  then have "product_tags (preprocess_row ?r) = Some (fill_str (product_tags ?r))" by simp
  then have "product_tags (preprocess_row ?r) = Some ''N/A''"
    by (simp add: woocommerce_row_def sample_woocommerce_def)
  then show ?thesis by (simp only: pre list.map)
qed

section \<open>The merge\<close>

lemma drop_duplicates_keys:
  "col ` set (drop_duplicates col seen xs) = col ` set xs - set seen"
  by (induction xs arbitrary: seen) auto

lemma drop_duplicates_distinct: "distinct (map col (drop_duplicates col seen xs))"
proof (induction xs arbitrary: seen)
  case Nil
  then show ?case by simp
next
  case (Cons x xs)
  have "col x \<notin> col ` set (drop_duplicates col (col x # seen) xs)"
    by (simp add: drop_duplicates_keys)
  with Cons show ?case by simp
qed

lemma drop_duplicates_first:
  "r \<in> set (drop_duplicates col seen xs) \<Longrightarrow> find (\<lambda>y. col y = col r) xs = Some r"
proof (induction xs arbitrary: seen)
  case Nil
  then show ?case by simp
next
  case (Cons x xs)
  show ?case
  proof (cases "col x \<in> set seen")
    case True
    with Cons.prems have r: "r \<in> set (drop_duplicates col seen xs)" by simp
    then have "col r \<in> col ` set (drop_duplicates col seen xs)" by blast
    then have "col r \<notin> set seen" by (simp add: drop_duplicates_keys)
    with True have "col x \<noteq> col r" by auto
    with Cons.IH [OF r] show ?thesis by simp
  next
    case False
    with Cons.prems have "r = x \<or> r \<in> set (drop_duplicates col (col x # seen) xs)" by auto
    then show ?thesis
    proof
      assume "r = x"
      then show ?thesis by simp
    next
      assume r: "r \<in> set (drop_duplicates col (col x # seen) xs)"
      then have "col r \<in> col ` set (drop_duplicates col (col x # seen) xs)" by blast
      then have "col x \<noteq> col r" by (auto simp: drop_duplicates_keys)
      with Cons.IH [OF r] show ?thesis by simp
    qed
  qed
qed

lemma filter_key_distinct:
  "distinct (map col xs) \<Longrightarrow> r \<in> set xs \<Longrightarrow> filter (\<lambda>x. col x = col r) xs = [r]"
proof (induction xs)
  case Nil
  then show ?case by simp
next
  case (Cons x xs)
  show ?case
  proof (cases "r = x")
    case True
    have "col x \<notin> col ` set xs" using Cons.prems(1) by simp
    then have "filter (\<lambda>y. col y = col x) xs = []"
      by (simp add: filter_empty_conv) (metis imageI)
    with True show ?thesis by simp
  next
    case False
    with Cons.prems have r: "r \<in> set xs" by simp
    then have "col x \<noteq> col r" using Cons.prems(1) by auto
    with Cons r show ?thesis by simp
  qed
qed

lemma find_append_left:
  "find P xs \<noteq> None \<Longrightarrow> find P (xs @ ys) = find P xs"
  by (induction xs) auto

lemma fetch_shopify_platform:
  "r \<in> set (fetch_shopify_data conn) \<Longrightarrow> source_platform r = Some ''Shopify''"
  by (auto simp: fetch_shopify_data_def shopify_row_def split: option.splits)

lemma fetch_woocommerce_platform:
  "r \<in> set (fetch_woocommerce_data conn) \<Longrightarrow> source_platform r = Some ''WooCommerce''"
  by (auto simp: fetch_woocommerce_data_def woocommerce_row_def split: option.splits)

lemma combine_fetched:
  "combine (fetch_shopify_data conn_shopify) (fetch_woocommerce_data conn_woocommerce) =
     drop_duplicates product_url []
       (fetch_shopify_data conn_shopify @ fetch_woocommerce_data conn_woocommerce)"
proof -
  let ?S = "fetch_shopify_data conn_shopify" and ?W = "fetch_woocommerce_data conn_woocommerce"
  have "\<not> all_null r" if "r \<in> set (?S @ ?W)" for r
    using that fetch_shopify_platform [of r] fetch_woocommerce_platform [of r]
    by (auto simp: all_null_def)
  then have "filter (\<lambda>r. \<not> all_null r) (?S @ ?W) = ?S @ ?W"
    by (simp only: filter_id_conv) blast
  moreover have "combine ?S ?W = drop_duplicates product_url [] (filter (\<lambda>r. \<not> all_null r) (?S @ ?W))"
    by (cases "?S = []"; cases "?W = []") (simp_all add: combine_def)
  ultimately show ?thesis by simp
qed

text \<open>
  C4. After the merge of the two fetched frames every \<^verbatim>\<open>product_url\<close> occurs exactly
  once: the URLs of the merged frame are distinct, and every URL of either input is the
  URL of exactly one merged row. For a URL that occurs in both inputs, the one surviving
  row is the first Shopify row with that URL, Shopify being the source that is read
  first.
\<close>

theorem merge_keeps_first_read_record:
  "distinct (map product_url
      (combine (fetch_shopify_data conn_shopify) (fetch_woocommerce_data conn_woocommerce)))
   \<and> (\<forall>u \<in> product_url ` set (fetch_shopify_data conn_shopify)
             \<union> product_url ` set (fetch_woocommerce_data conn_woocommerce).
         length (filter (\<lambda>x. product_url x = u)
           (combine (fetch_shopify_data conn_shopify) (fetch_woocommerce_data conn_woocommerce))) = 1)
   \<and> (\<forall>u \<in> product_url ` set (fetch_shopify_data conn_shopify)
             \<inter> product_url ` set (fetch_woocommerce_data conn_woocommerce).
         \<exists>r. filter (\<lambda>x. product_url x = u)
               (combine (fetch_shopify_data conn_shopify) (fetch_woocommerce_data conn_woocommerce)) = [r]
            \<and> find (\<lambda>x. product_url x = u) (fetch_shopify_data conn_shopify) = Some r
            \<and> source_platform r = Some ''Shopify'')"
proof -
  let ?S = "fetch_shopify_data conn_shopify" and ?W = "fetch_woocommerce_data conn_woocommerce"
  let ?C = "combine ?S ?W"
  have C: "?C = drop_duplicates product_url [] (?S @ ?W)" by (rule combine_fetched)
  have dist: "distinct (map product_url ?C)" by (simp add: C drop_duplicates_distinct)
  have keys: "product_url ` set ?C = product_url ` set ?S \<union> product_url ` set ?W"
    by (simp add: C drop_duplicates_keys image_Un)
  have one: "\<exists>r \<in> set ?C. product_url r = u \<and> filter (\<lambda>x. product_url x = u) ?C = [r]"
    if "u \<in> product_url ` set ?S \<union> product_url ` set ?W" for u
  proof -
    from that keys have "u \<in> product_url ` set ?C" by simp
    then obtain r where r: "r \<in> set ?C" "product_url r = u" by auto
    from filter_key_distinct [OF dist r(1)] r show ?thesis by auto
  qed
  have a: "\<forall>u \<in> product_url ` set ?S \<union> product_url ` set ?W.
         length (filter (\<lambda>x. product_url x = u) ?C) = 1"
    using one by fastforce
  have b: "\<forall>u \<in> product_url ` set ?S \<inter> product_url ` set ?W.
         \<exists>r. filter (\<lambda>x. product_url x = u) ?C = [r]
            \<and> find (\<lambda>x. product_url x = u) ?S = Some r
            \<and> source_platform r = Some ''Shopify''"
  proof
    fix u assume u: "u \<in> product_url ` set ?S \<inter> product_url ` set ?W"
    then obtain r where r: "r \<in> set ?C" "product_url r = u"
      "filter (\<lambda>x. product_url x = u) ?C = [r]"
      using one [of u] by blast
    have "find (\<lambda>y. product_url y = product_url r) (?S @ ?W) = Some r"
      using r(1) unfolding C by (rule drop_duplicates_first)
    moreover have "find (\<lambda>y. product_url y = u) ?S \<noteq> None"
      using u by (auto simp: find_None_iff)
    ultimately have f: "find (\<lambda>x. product_url x = u) ?S = Some r"
      using r(2) find_append_left [of "\<lambda>y. product_url y = u" ?S ?W] by simp
    then have "r \<in> set ?S" by (auto simp: find_Some_iff)
    then have "source_platform r = Some ''Shopify''" by (rule fetch_shopify_platform)
    with r(3) f show "\<exists>r. filter (\<lambda>x. product_url x = u) ?C = [r]
            \<and> find (\<lambda>x. product_url x = u) ?S = Some r
            \<and> source_platform r = Some ''Shopify''" by blast
  qed
  show ?thesis using dist a b by (intro conjI)
qed

theorem merge_keeps_first_read_record_witness:
  "map source_platform (filter (\<lambda>x. product_url x = Some ''A'')
      (combine (fetch_shopify_data (Some [sample_shopify ''A'' ''S'' (Num 10) (Str ''Available'')]))
               (fetch_woocommerce_data (Some [sample_woocommerce ''A'' (Str ''$5.00''),
                                              sample_woocommerce ''B'' (Str ''$7.00'')]))))
     = [Some ''Shopify'']"
proof -
  let ?S = "fetch_shopify_data (Some [sample_shopify ''A'' ''S'' (Num 10) (Str ''Available'')])"
  let ?W = "fetch_woocommerce_data (Some [sample_woocommerce ''A'' (Str ''$5.00''),
                                              sample_woocommerce ''B'' (Str ''$7.00'')])"
  have "Some ''A'' \<in> product_url ` set ?S \<inter> product_url ` set ?W"
    by (simp add: fetch_shopify_data_def fetch_woocommerce_data_def shopify_row_def
        woocommerce_row_def sample_shopify_def sample_woocommerce_def)
  with merge_keeps_first_read_record [of "Some [sample_shopify ''A'' ''S'' (Num 10) (Str ''Available'')]"
      "Some [sample_woocommerce ''A'' (Str ''$5.00''), sample_woocommerce ''B'' (Str ''$7.00'')]",
      THEN conjunct2, THEN conjunct2]
  obtain r where "filter (\<lambda>x. product_url x = Some ''A'') (combine ?S ?W) = [r]"
    and "source_platform r = Some ''Shopify''"
    by blast
  then show ?thesis by simp
qed

section \<open>The top-K view\<close>

lemma descending_take_drop:
  assumes "descending ys"
  shows "descending (take k ys)"
    and "\<forall>x \<in> set (drop k ys). \<forall>y \<in> set (take k ys). final_score x \<le> final_score y"
proof -
  have "descending (take k ys @ drop k ys)" using assms by simp
  then have s: "sorted_wrt (\<lambda>a b. final_score b \<le> final_score a) (take k ys @ drop k ys)"
    unfolding descending_def .
  show "descending (take k ys)"
    using s unfolding descending_def sorted_wrt_append by blast
  show "\<forall>x \<in> set (drop k ys). \<forall>y \<in> set (take k ys). final_score x \<le> final_score y"
    using s unfolding sorted_wrt_append by blast
qed

lemma mset_minus_take: "mset ys - mset (take k ys) = mset (drop k ys)"
proof -
  have "mset ys = mset (take k ys) + mset (drop k ys)"
    by (metis append_take_drop_id mset_append)
  then show ?thesis by simp
qed

lemma take_is_largest:
  assumes "mset ys = mset g" and "descending ys"
  shows "length (take k ys) = min k (length g)"
    and "descending (take k ys)"
    and "mset (take k ys) \<subseteq># mset g"
    and "\<forall>x \<in># mset g - mset (take k ys). \<forall>y \<in> set (take k ys). final_score x \<le> final_score y"
    and "length g \<le> k \<longrightarrow> mset (take k ys) = mset g"
proof -
  have len: "length ys = length g" using assms(1) by (rule mset_eq_length)
  show "length (take k ys) = min k (length g)" using len by (simp add: min.commute)
  show "descending (take k ys)" using assms(2) by (rule descending_take_drop(1))
  have "mset (take k ys) \<subseteq># mset ys"
    by (metis append_take_drop_id mset_append mset_subset_eq_add_left)
  then show "mset (take k ys) \<subseteq># mset g" using assms(1) by simp
  show "\<forall>x \<in># mset g - mset (take k ys). \<forall>y \<in> set (take k ys). final_score x \<le> final_score y"
    using descending_take_drop(2) [OF assms(2), of k] mset_minus_take [of ys k] assms(1)
    by (metis set_mset_mset)
  show "length g \<le> k \<longrightarrow> mset (take k ys) = mset g" using len assms(1) by simp
qed




section \<open>The flagship view\<close>

lemma store_names_set:
  "set (store_names df) = {s. \<exists>r \<in> set df. source_store_name r = Some s}"
  by (auto simp: store_names_def split: option.splits)

lemma store_names_distinct: "distinct (store_names df)"
  by (simp add: store_names_def)

lemma concat_single_key:
  assumes "distinct names" and "s \<in> set names"
  shows "concat (map (\<lambda>s'. if s' = s then f s' else []) names) = f s"
  using assms by (induction names) (auto simp: concat_eq_Nil_conv)

lemma concat_no_key:
  assumes "s \<notin> set names"
  shows "concat (map (\<lambda>s'. if s' = s then f s' else []) names) = []"
  using assms by (induction names) auto

lemma store_group_concat:
  "store_group s (concat xss) = concat (map (store_group s) xss)"
  by (simp add: store_group_def [abs_def] filter_concat)

lemma store_group_of_group:
  "set xs \<subseteq> set (store_group s' df) \<Longrightarrow> store_group s xs = (if s' = s then xs else [])"
  by (auto simp: store_group_def filter_empty_conv filter_id_conv)

lemma flagship_store_group:
  assumes "selects_largest nlargest" and "s \<in> set (store_names df)"
  shows "store_group s (display_flagship_products_per_store nlargest df n)
           = nlargest n (store_group s df)"
proof -
  have ne: "df \<noteq> []" using assms(2) by (auto simp: store_names_set)
  have "store_group s (display_flagship_products_per_store nlargest df n)
          = concat (map (\<lambda>s'. store_group s (nlargest n (store_group s' df))) (store_names df))"
    using ne by (simp add: display_flagship_products_per_store_def store_group_concat comp_def)
  also have "\<dots> = concat (map (\<lambda>s'. if s' = s then nlargest n (store_group s' df) else [])
                            (store_names df))"
    using store_group_of_group [OF nlargest_subset [OF assms(1)]] by metis
  also have "\<dots> = nlargest n (store_group s df)"
    using store_names_distinct assms(2) by (rule concat_single_key)
  finally show ?thesis .
qed

lemma enumerate_snd_mem: "(i, row) \<in> set (enumerate n g) \<Longrightarrow> row \<in> set g"
  by (auto simp: in_set_enumerate_eq)

lemma store_group_store: "row \<in> set (store_group s xs) \<Longrightarrow> source_store_name row = Some s"
  by (simp add: store_group_def)

lemma flagship_tuples_of_store:
  "filter (\<lambda>t. fl_source_store_name t = Some s) (flagship_tuples xs)
     = map (\<lambda>(i, row).
              \<lparr> fl_source_store_name = source_store_name row, store_rank = i,
                fl_product_url = product_url row, fl_title = title row,
                fl_final_score = final_score row, fl_source_platform = source_platform row \<rparr>)
           (enumerate 1 (store_group s xs))"
proof -
  let ?mk = "\<lambda>(i, row).
              \<lparr> fl_source_store_name = source_store_name row, store_rank = i,
                fl_product_url = product_url row, fl_title = title row,
                fl_final_score = final_score row, fl_source_platform = source_platform row \<rparr>"
  have grp: "filter (\<lambda>t. fl_source_store_name t = Some s) (map ?mk (enumerate 1 (store_group s' xs)))
          = (if s' = s then map ?mk (enumerate 1 (store_group s' xs)) else [])" for s'
  proof (cases "s' = s")
    case True
    have "\<forall>t \<in> set (map ?mk (enumerate 1 (store_group s' xs))). fl_source_store_name t = Some s"
      using True by (auto dest!: enumerate_snd_mem store_group_store)
    then have "filter (\<lambda>t. fl_source_store_name t = Some s) (map ?mk (enumerate 1 (store_group s' xs)))
        = map ?mk (enumerate 1 (store_group s' xs))"
      by (rule filter_id_conv [THEN iffD2])
    then show ?thesis using True by (simp only: if_True simp_thms)
  next
    case False
    have "\<forall>t \<in> set (map ?mk (enumerate 1 (store_group s' xs))). fl_source_store_name t \<noteq> Some s"
      using False by (auto dest!: enumerate_snd_mem store_group_store)
    then have "filter (\<lambda>t. fl_source_store_name t = Some s) (map ?mk (enumerate 1 (store_group s' xs)))
        = []"
      by (simp only: filter_empty_conv)
    then show ?thesis using False by (simp only: if_False simp_thms)
  qed
  have "filter (\<lambda>t. fl_source_store_name t = Some s) (flagship_tuples xs)
      = concat (map (\<lambda>s'. if s' = s then map ?mk (enumerate 1 (store_group s' xs)) else [])
                  (store_names xs))"
    by (simp only: flagship_tuples_def filter_concat map_map comp_def grp)
  also have "\<dots> = map ?mk (enumerate 1 (store_group s xs))"
  proof (cases "s \<in> set (store_names xs)")
    case True
    with store_names_distinct show ?thesis by (rule concat_single_key)
  next
    case False
    then have "store_group s xs = []"
      by (auto simp: store_names_set store_group_def filter_empty_conv)
    with False show ?thesis by (simp add: concat_no_key)
  qed
  finally show ?thesis .
qed

text \<open>
  C5. For every scored set, every \<open>n\<close> and every store \<open>s\<close> that has a row in the
  set, the rows of \<open>s\<close> in the output of the flagship deriver are what \<^verbatim>\<open>nlargest\<close>
  selects from the rows of \<open>s\<close>: there are exactly \<open>min n (size of the group)\<close> of them
  (so the store is present when \<open>n\<close> is positive), they are in descending order of
  \<^verbatim>\<open>final_score\<close>, they are rows of the group, and no row of the group that is left out
  scores higher than one of them. The tuples that \<^verbatim>\<open>save_flagship_to_db\<close> builds for
  \<open>s\<close> are these rows in this order, and their \<^verbatim>\<open>store_rank\<close> values are
  \<open>1, 2, ..., min n (size of the group)\<close> without a gap.
\<close>

theorem flagship_per_store:
  assumes "selects_largest nlargest" and "r \<in> set df" and "source_store_name r = Some s"
  shows "store_group s (display_flagship_products_per_store nlargest df n_flagship)
           = nlargest n_flagship (store_group s df)
       \<and> (0 < n_flagship \<longrightarrow>
            store_group s (display_flagship_products_per_store nlargest df n_flagship) \<noteq> [])
       \<and> length (store_group s (display_flagship_products_per_store nlargest df n_flagship))
           = min n_flagship (length (store_group s df))
       \<and> descending (store_group s (display_flagship_products_per_store nlargest df n_flagship))
       \<and> mset (store_group s (display_flagship_products_per_store nlargest df n_flagship))
            \<subseteq># mset (store_group s df)
       \<and> (\<forall>x \<in># mset (store_group s df)
                  - mset (store_group s (display_flagship_products_per_store nlargest df n_flagship)).
            \<forall>y \<in> set (store_group s (display_flagship_products_per_store nlargest df n_flagship)).
              final_score x \<le> final_score y)
       \<and> map store_rank (filter (\<lambda>t. fl_source_store_name t = Some s)
            (flagship_tuples (display_flagship_products_per_store nlargest df n_flagship)))
           = [1 ..< Suc (min n_flagship (length (store_group s df)))]
       \<and> map fl_product_url (filter (\<lambda>t. fl_source_store_name t = Some s)
            (flagship_tuples (display_flagship_products_per_store nlargest df n_flagship)))
           = map product_url (store_group s (display_flagship_products_per_store nlargest df n_flagship))"
proof -
  let ?g = "store_group s df"
  let ?out = "display_flagship_products_per_store nlargest df n_flagship"
  let ?e = "store_group s ?out"
  let ?ts = "filter (\<lambda>t. fl_source_store_name t = Some s) (flagship_tuples ?out)"
  have s: "s \<in> set (store_names df)" using assms(2,3) by (auto simp: store_names_set)
  have gne: "0 < length ?g" using assms(2,3) by (auto simp: store_group_def filter_empty_conv)
  have e: "?e = nlargest n_flagship ?g" using assms(1) s by (rule flagship_store_group)
  from assms(1) obtain ys where ys: "mset ys = mset ?g" "descending ys"
    "nlargest n_flagship ?g = take n_flagship ys"
    unfolding selects_largest_def by blast
  have ey: "?e = take n_flagship ys" using e ys(3) by simp
  note top = take_is_largest [OF ys(1) ys(2), of n_flagship]
  have len: "length ?e = min n_flagship (length ?g)" using top(1) ey by simp
  have desc: "descending ?e" using top(2) ey by simp
  have sub: "mset ?e \<subseteq># mset ?g" using top(3) ey by simp
  have best: "\<forall>x \<in># mset ?g - mset ?e. \<forall>y \<in> set ?e. final_score x \<le> final_score y"
    using top(4) ey by simp
  have ranks: "map store_rank ?ts = [1 ..< Suc (min n_flagship (length ?g))]"
  proof -
    have "map store_rank ?ts = map fst (enumerate 1 ?e)"
      unfolding flagship_tuples_of_store by (simp add: comp_def case_prod_unfold)
    also have "\<dots> = [1 ..< 1 + length ?e]" by (rule map_fst_enumerate)
    also have "\<dots> = [1 ..< Suc (min n_flagship (length ?g))]" by (simp only: len plus_1_eq_Suc)
    finally show ?thesis .
  qed
  have urls: "map fl_product_url ?ts = map product_url ?e"
  proof -
    have "map fl_product_url ?ts = map (\<lambda>x. product_url (snd x)) (enumerate 1 ?e)"
      unfolding flagship_tuples_of_store by (simp add: comp_def case_prod_unfold)
    also have "\<dots> = map product_url (map snd (enumerate 1 ?e))"
      by (simp only: map_map comp_def)
    finally show ?thesis by (simp only: map_snd_enumerate)
  qed
  have present: "0 < n_flagship \<longrightarrow> ?e \<noteq> []"
  proof
    assume "0 < n_flagship"
    with gne have "0 < min n_flagship (length ?g)" by simp
    with len have "0 < length ?e" by simp
    then show "?e \<noteq> []" by blast
  qed
  show ?thesis using e present len desc sub best ranks urls by (intro conjI)
qed

theorem flagship_per_store_witness:
  "selects_largest (\<lambda>n g. take n (stable_sort_descending g))
   \<and> sample_scored ''A'' ''S'' (1 / 5) \<in> set [sample_scored ''A'' ''S'' (1 / 5), sample_scored ''B'' ''T'' (4 / 5),
                                 sample_scored ''C'' ''S'' 1, sample_scored ''D'' ''S'' (3 / 5)]
   \<and> source_store_name (sample_scored ''A'' ''S'' (1 / 5)) = Some ''S''
   \<and> map product_url (store_group ''S'' (display_flagship_products_per_store
          (\<lambda>n g. take n (stable_sort_descending g))
          [sample_scored ''A'' ''S'' (1 / 5), sample_scored ''B'' ''T'' (4 / 5),
           sample_scored ''C'' ''S'' 1, sample_scored ''D'' ''S'' (3 / 5)] 2))
       = [Some ''C'', Some ''D'']
   \<and> map store_rank (filter (\<lambda>t. fl_source_store_name t = Some ''S'')
        (flagship_tuples (display_flagship_products_per_store
          (\<lambda>n g. take n (stable_sort_descending g))
          [sample_scored ''A'' ''S'' (1 / 5), sample_scored ''B'' ''T'' (4 / 5),
           sample_scored ''C'' ''S'' 1, sample_scored ''D'' ''S'' (3 / 5)] 2)))
       = [1, 2]"
proof -
  let ?df = "[sample_scored ''A'' ''S'' (1 / 5), sample_scored ''B'' ''T'' (4 / 5),
              sample_scored ''C'' ''S'' 1, sample_scored ''D'' ''S'' (3 / 5)]"
  let ?nl = "\<lambda>n g. take n (stable_sort_descending g)"
  have sel [simp]: "source_store_name (sample_scored u st f) = Some st"
    "final_score (sample_scored u st f) = f" "product_url (sample_scored u st f) = Some u" for u st f
    by (simp_all add: sample_scored_def sample_prepped_def prepped.defs scored.defs)
  have s1: "sample_scored ''A'' ''S'' (1 / 5) \<in> set ?df" by simp
  have s2: "source_store_name (sample_scored ''A'' ''S'' (1 / 5)) = Some ''S''" by simp
  have g: "store_group ''S'' ?df
      = [sample_scored ''A'' ''S'' (1 / 5), sample_scored ''C'' ''S'' 1, sample_scored ''D'' ''S'' (3 / 5)]"
    by (simp add: store_group_def)
  note t = flagship_per_store [OF selects_largest_stable s1 s2, of 2]
  have "store_group ''S'' (display_flagship_products_per_store ?nl ?df 2)
      = take 2 (stable_sort_descending (store_group ''S'' ?df))"
    using t by (simp only:)
  also have "\<dots> = [sample_scored ''C'' ''S'' 1, sample_scored ''D'' ''S'' (3 / 5)]"
    unfolding g by (simp add: stable_sort_descending_def)
  finally have a: "map product_url (store_group ''S'' (display_flagship_products_per_store ?nl ?df 2))
      = [Some ''C'', Some ''D'']" by simp
  have "map store_rank (filter (\<lambda>t. fl_source_store_name t = Some ''S'')
        (flagship_tuples (display_flagship_products_per_store ?nl ?df 2)))
       = [1 ..< Suc (min 2 (length (store_group ''S'' ?df)))]"
    using t by (simp only:)
  also have "\<dots> = [1, 2]" unfolding g by (simp add: upt_rec)
  finally show ?thesis using selects_largest_stable s1 s2 a by (simp only: simp_thms)
qed

section \<open>Persistence\<close>

lemma find_snoc:
  "find P (ys @ [x]) = (case find P ys of Some y \<Rightarrow> Some y | None \<Rightarrow> if P x then Some x else None)"
  by (induction ys) simp_all

lemma fold_upsert_tables:
  "fold upsert xs tb =
     tb \<lparr> scored_products := fold (\<lambda>t m. m (sp_product_url t \<mapsto> t)) xs (scored_products tb) \<rparr>"
  by (induction xs arbitrary: tb) (simp_all add: upsert_def)

lemma fold_map_upd_lookup:
  "fold (\<lambda>t m. m (sp_product_url t \<mapsto> t)) xs m u =
     (case find (\<lambda>x. sp_product_url x = u) (rev xs) of Some x \<Rightarrow> Some x | None \<Rightarrow> m u)"
proof (induction xs arbitrary: m)
  case Nil
  then show ?case by simp
next
  case (Cons x xs)
  have "fold (\<lambda>t m. m (sp_product_url t \<mapsto> t)) (x # xs) m u
          = fold (\<lambda>t m. m (sp_product_url t \<mapsto> t)) xs (m (sp_product_url x \<mapsto> x)) u"
    by simp
  also have "\<dots> = (case find (\<lambda>x. sp_product_url x = u) (rev xs) of
                       Some y \<Rightarrow> Some y | None \<Rightarrow> (m (sp_product_url x \<mapsto> x)) u)"
    by (rule Cons.IH)
  also have "\<dots> = (case find (\<lambda>x. sp_product_url x = u) (rev (x # xs)) of
                       Some y \<Rightarrow> Some y | None \<Rightarrow> m u)"
    by (cases "find (\<lambda>x. sp_product_url x = u) (rev xs)") (simp_all add: find_snoc)
  finally show ?case .
qed

lemma fold_map_upd_idem:
  "fold (\<lambda>t m. m (sp_product_url t \<mapsto> t)) xs (fold (\<lambda>t m. m (sp_product_url t \<mapsto> t)) xs m)
     = fold (\<lambda>t m. m (sp_product_url t \<mapsto> t)) xs m"
  by (rule ext) (simp add: fold_map_upd_lookup split: option.splits)

lemma executemany_upsert_idem:
  "executemany_upsert xs (executemany_upsert xs tb) = executemany_upsert xs tb"
  by (simp add: executemany_upsert_def fold_upsert_tables fold_map_upd_idem)

lemma executemany_upsert_append:
  "executemany_upsert (xs @ ys) tb = executemany_upsert ys (executemany_upsert xs tb)"
  by (simp add: executemany_upsert_def)

lemma executemany_upsert_views [simp]:
  "top_k_products_overall (executemany_upsert xs tb) = top_k_products_overall tb"
  "flagship_products_by_store (executemany_upsert xs tb) = flagship_products_by_store tb"
  "store_rankings (executemany_upsert xs tb) = store_rankings tb"
  by (simp_all add: executemany_upsert_def fold_upsert_tables)

lemma batches_Nil: "batches n [] = []"
  by (subst batches.simps) simp

lemma save_batches:
  assumes "0 < n"
  shows "session (fold (\<lambda>b c. commit (c \<lparr> session := executemany_upsert b (session c) \<rparr>))
                    (batches n xs) c) = executemany_upsert xs (session c)
       \<and> committed (fold (\<lambda>b c. commit (c \<lparr> session := executemany_upsert b (session c) \<rparr>))
                    (batches n xs) c)
           = (if xs = [] then committed c else executemany_upsert xs (session c))"
  using assms
proof (induction n xs arbitrary: c rule: batches.induct)
  case (1 n xs)
  show ?case
  proof (cases "xs = []")
    case True
    then show ?thesis by (simp add: executemany_upsert_def batches_Nil)
  next
    case False
    let ?c = "commit (c \<lparr> session := executemany_upsert (take n xs) (session c) \<rparr>)"
    have b: "batches n xs = take n xs # batches n (drop n xs)"
      using False "1.prems" by (subst batches.simps) simp
    have s: "session ?c = executemany_upsert (take n xs) (session c)"
      and k: "committed ?c = executemany_upsert (take n xs) (session c)"
      by (simp_all add: commit_def)
    have app: "executemany_upsert (drop n xs) (executemany_upsert (take n xs) (session c))
                 = executemany_upsert xs (session c)"
      using executemany_upsert_append [of "take n xs" "drop n xs" "session c"] by simp
    have ih: "session (fold (\<lambda>b c. commit (c \<lparr> session := executemany_upsert b (session c) \<rparr>))
                    (batches n (drop n xs)) ?c) = executemany_upsert (drop n xs) (session ?c)
       \<and> committed (fold (\<lambda>b c. commit (c \<lparr> session := executemany_upsert b (session c) \<rparr>))
                    (batches n (drop n xs)) ?c)
           = (if drop n xs = [] then committed ?c else executemany_upsert (drop n xs) (session ?c))"
      using "1.IH" [of ?c] False "1.prems" by simp
    have d: "executemany_upsert (drop n xs) (session ?c) = executemany_upsert xs (session c)"
      by (simp only: s app)
    have k': "drop n xs = [] \<Longrightarrow> committed ?c = executemany_upsert xs (session c)"
    proof -
      assume e: "drop n xs = []"
      have "executemany_upsert (drop n xs) (session ?c) = session ?c"
        by (simp only: e) (simp add: executemany_upsert_def)
      with d have "session ?c = executemany_upsert xs (session c)" by simp
      then show ?thesis by (simp only: commit_def) simp
    qed
    have f: "fold (\<lambda>b c. commit (c \<lparr> session := executemany_upsert b (session c) \<rparr>)) (batches n xs) c
           = fold (\<lambda>b c. commit (c \<lparr> session := executemany_upsert b (session c) \<rparr>))
               (batches n (drop n xs)) ?c"
      by (simp only: b fold_simps)
    show ?thesis
      unfolding f using ih d k' False by (cases "drop n xs = []") (simp_all only: if_True if_False simp_thms)
  qed
qed


lemma executemany_upsert_Nil [simp]: "executemany_upsert [] tb = tb"
  by (simp add: executemany_upsert_def)

lemma executemany_upsert_scored:
  "scored_products (executemany_upsert xs tb) u =
     (case find (\<lambda>x. sp_product_url x = u) (rev xs) of
        Some x \<Rightarrow> Some x
      | None \<Rightarrow> scored_products tb u)"
  by (simp add: executemany_upsert_def fold_upsert_tables fold_map_upd_lookup)

lemma save_scored_closed:
  assumes "0 < n"
  shows "save_scored_products_to_db df (Some (connect t)) n
           = Inr (Some (connect (executemany_upsert (map scored_tuple df) t)))"
proof (cases "df = []")
  case True
  then show ?thesis by (simp add: save_scored_products_to_db_def)
next
  case False
  let ?c = "fold (\<lambda>b c. commit (c \<lparr> session := executemany_upsert b (session c) \<rparr>))
              (batches n (map scored_tuple df)) (connect t)"
  have "session ?c = executemany_upsert (map scored_tuple df) t"
    and "committed ?c = executemany_upsert (map scored_tuple df) t"
    using save_batches [OF assms, of "map scored_tuple df" "connect t"] False
    by (simp_all add: connect_def)
  then have "?c = connect (executemany_upsert (map scored_tuple df) t)"
    by (intro connection.equality) (simp_all add: connect_def)
  then show ?thesis using False assms by (simp add: save_scored_products_to_db_def)
qed

lemma run_persistence_closed:
  "run_persistence df top_k_df flagship_df avg mx True t =
     Inr \<lparr> scored_products = scored_products (executemany_upsert (map scored_tuple df) t),
           top_k_products_overall =
             (if top_k_df = [] then top_k_products_overall t else top_k_tuples top_k_df),
           flagship_products_by_store =
             (if flagship_df = [] then flagship_products_by_store t
              else if store_names flagship_df = []
                   then (if avg = [] \<and> mx = [] then flagship_products_by_store t else [])
              else flagship_tuples flagship_df),
           store_rankings = (if avg = [] \<and> mx = [] then store_rankings t
                             else rankings_df avg mx (platform_map df)) \<rparr>"
proof -
  have n: "0 < DB_BATCH_SIZE" by (simp add: DB_BATCH_SIZE_def)
  have p: "persist df top_k_df flagship_df avg mx (Some (connect t)) =
      Inr (save_store_rankings_to_db avg mx (platform_map df)
             (save_flagship_to_db flagship_df
                (save_top_k_to_db top_k_df
                   (Some (connect (executemany_upsert (map scored_tuple df) t))))))"
    by (simp add: persist_def save_scored_closed [OF n])
  show ?thesis
    unfolding run_persistence_def
    by (simp only: if_True p)
       (simp add: save_top_k_to_db_def save_flagship_to_db_def
        save_store_rankings_to_db_def connect_def commit_def close_def Let_def
        tables.equality)
qed

lemma run_persistence_unreachable:
  "run_persistence df top_k_df flagship_df avg mx False t = Inr t"
  by (simp add: run_persistence_def persist_def)

text \<open>
  C8. With the four destination tables as explicit state, a run of the persistence stage
  (connect, write, close) always ends with tables, and a second run on the same scored
  set and the same views, started from the tables that the first run left, leaves them
  as they are. After a run with a connection, \<^verbatim>\<open>scored_products\<close> holds for every
  \<^verbatim>\<open>product_url\<close> of the scored set the values of the run (of the last row with that
  URL), and for every other URL the row that it held before; each view table whose view
  is not empty (so that the write takes place) holds exactly the rows of the run in
  place of all it held before, and a view table whose view is empty is left as it was.
  The timestamp and \<^verbatim>\<open>id\<close> columns are not part of the state.
\<close>

theorem persistence_run_twice:
  "(case run_persistence combined_df top_k_df flagship_df avg_scores max_scores reachable t of
      Inl e \<Rightarrow> False
    | Inr t1 \<Rightarrow>
        run_persistence combined_df top_k_df flagship_df avg_scores max_scores reachable t1 = Inr t1
        \<and> (reachable \<longrightarrow>
             (\<forall>u. scored_products t1 u =
                 (case find (\<lambda>x. sp_product_url x = u) (rev (map scored_tuple combined_df)) of
                    Some x \<Rightarrow> Some x
                  | None \<Rightarrow> scored_products t u))
           \<and> (top_k_df \<noteq> [] \<longrightarrow> top_k_products_overall t1 = top_k_tuples top_k_df)
           \<and> (store_names flagship_df \<noteq> [] \<longrightarrow>
                  flagship_products_by_store t1 = flagship_tuples flagship_df)
           \<and> (avg_scores \<noteq> [] \<or> max_scores \<noteq> [] \<longrightarrow>
                  store_rankings t1 = rankings_df avg_scores max_scores (platform_map combined_df))
           \<and> (top_k_df = [] \<longrightarrow> top_k_products_overall t1 = top_k_products_overall t)
           \<and> (flagship_df = [] \<longrightarrow> flagship_products_by_store t1 = flagship_products_by_store t)
           \<and> (avg_scores = [] \<and> max_scores = [] \<longrightarrow> store_rankings t1 = store_rankings t)))"
proof (cases reachable)
  case False
  then show ?thesis by (simp add: run_persistence_unreachable)
next
  case True
  define t1 where "t1 =
         \<lparr> scored_products = scored_products (executemany_upsert (map scored_tuple combined_df) t),
           top_k_products_overall =
             (if top_k_df = [] then top_k_products_overall t else top_k_tuples top_k_df),
           flagship_products_by_store =
             (if flagship_df = [] then flagship_products_by_store t
              else if store_names flagship_df = []
                   then (if avg_scores = [] \<and> max_scores = [] then flagship_products_by_store t else [])
              else flagship_tuples flagship_df),
           store_rankings = (if avg_scores = [] \<and> max_scores = [] then store_rankings t
                             else rankings_df avg_scores max_scores (platform_map combined_df)) \<rparr>"
  have r1: "run_persistence combined_df top_k_df flagship_df avg_scores max_scores reachable t = Inr t1"
    using True by (simp only: run_persistence_closed t1_def)
  have sp: "scored_products (executemany_upsert (map scored_tuple combined_df) t1)
              = scored_products t1"
    by (simp add: t1_def executemany_upsert_def fold_upsert_tables fold_map_upd_idem)
  have f1: "(if top_k_df = [] then top_k_products_overall t1 else top_k_tuples top_k_df)
              = top_k_products_overall t1"
    by (simp add: t1_def)
  have f2: "(if flagship_df = [] then flagship_products_by_store t1
              else if store_names flagship_df = []
                   then (if avg_scores = [] \<and> max_scores = [] then flagship_products_by_store t1 else [])
              else flagship_tuples flagship_df) = flagship_products_by_store t1"
    by (simp add: t1_def)
  have f3: "(if avg_scores = [] \<and> max_scores = [] then store_rankings t1
              else rankings_df avg_scores max_scores (platform_map combined_df)) = store_rankings t1"
    by (simp add: t1_def)
  have "run_persistence combined_df top_k_df flagship_df avg_scores max_scores True t1 =
         Inr \<lparr> scored_products = scored_products t1,
               top_k_products_overall = top_k_products_overall t1,
               flagship_products_by_store = flagship_products_by_store t1,
               store_rankings = store_rankings t1 \<rparr>"
    by (simp only: run_persistence_closed sp f1 f2 f3)
  then have r2: "run_persistence combined_df top_k_df flagship_df avg_scores max_scores reachable t1 = Inr t1"
    using True by simp
  have lookup: "\<forall>u. scored_products t1 u =
                 (case find (\<lambda>x. sp_product_url x = u) (rev (map scored_tuple combined_df)) of
                    Some x \<Rightarrow> Some x
                  | None \<Rightarrow> scored_products t u)"
    by (simp add: t1_def executemany_upsert_scored)
  have nonempty: "store_names flagship_df \<noteq> [] \<Longrightarrow> flagship_df \<noteq> []"
    by (auto simp: store_names_def)
  have v1: "top_k_df \<noteq> [] \<longrightarrow> top_k_products_overall t1 = top_k_tuples top_k_df"
    and v2: "store_names flagship_df \<noteq> [] \<longrightarrow>
                  flagship_products_by_store t1 = flagship_tuples flagship_df"
    and v3: "avg_scores \<noteq> [] \<or> max_scores \<noteq> [] \<longrightarrow>
                  store_rankings t1 = rankings_df avg_scores max_scores (platform_map combined_df)"
    and v4: "top_k_df = [] \<longrightarrow> top_k_products_overall t1 = top_k_products_overall t"
    and v5: "flagship_df = [] \<longrightarrow> flagship_products_by_store t1 = flagship_products_by_store t"
    and v6: "avg_scores = [] \<and> max_scores = [] \<longrightarrow> store_rankings t1 = store_rankings t"
    using nonempty by (auto simp: t1_def)
  show ?thesis
    unfolding r1 sum.case using r2 lookup v1 v2 v3 v4 v5 v6 by blast
qed

theorem persistence_run_twice_witness:
  "(case run_persistence [sample_scored ''A'' ''S'' 1] [sample_scored ''A'' ''S'' 1]
           [sample_scored ''A'' ''S'' 1] [(''S'', 1)] [(''S'', 1)] True empty_tables of
      Inl e \<Rightarrow> False
    | Inr t1 \<Rightarrow>
        run_persistence [sample_scored ''A'' ''S'' 1] [sample_scored ''A'' ''S'' 1]
           [sample_scored ''A'' ''S'' 1] [(''S'', 1)] [(''S'', 1)] True t1 = Inr t1
        \<and> map rank_overall (top_k_products_overall t1) = [1]
        \<and> map store_rank (flagship_products_by_store t1) = [1]
        \<and> map sr_source_store_name (store_rankings t1) = [''S''])"
proof -
  let ?a = "sample_scored ''A'' ''S'' 1"
  have st: "source_store_name ?a = Some ''S''"
    by (simp add: sample_scored_def sample_prepped_def prepped.defs scored.defs)
  have names: "store_names [?a] = [''S'']" by (simp add: store_names_def st)
  have tk: "map rank_overall (top_k_tuples [?a]) = [1]"
    by (simp add: top_k_tuples_def enumerate_eq_zip)
  have fl: "map store_rank (flagship_tuples [?a]) = [1]"
    by (simp add: flagship_tuples_def names store_group_def st enumerate_eq_zip)
  have rk: "map sr_source_store_name (rankings_df [(''S'', 1)] [(''S'', 1)] (platform_map [?a])) = [''S'']"
    by (simp add: rankings_df_def)
  note t = persistence_run_twice [of "[?a]" "[?a]" "[?a]" "[(''S'', 1)]" "[(''S'', 1)]" True empty_tables]
  show ?thesis
  proof (cases "run_persistence [?a] [?a] [?a] [(''S'', 1)] [(''S'', 1)] True empty_tables")
    case (Inl e)
    with t show ?thesis by simp
  next
    case (Inr t1)
    with t have "run_persistence [?a] [?a] [?a] [(''S'', 1)] [(''S'', 1)] True t1 = Inr t1"
      and "top_k_products_overall t1 = top_k_tuples [?a]"
      and "flagship_products_by_store t1 = flagship_tuples [?a]"
      and "store_rankings t1 = rankings_df [(''S'', 1)] [(''S'', 1)] (platform_map [?a])"
      using names by simp_all
    then show ?thesis using Inr tk fl rk by simp
  qed
qed

end
